theory Spec2Isabelle
  imports Complex_Main "HOL-Library.Word"
begin

unbundle bit_operations_syntax

section \<open>Unicode code points (unicode/common.h)\<close>

text \<open>\<^verbatim>\<open>enum class code_point : uint32_t\<close>: a code point is a 32-bit unsigned value. The
  comparison operators of the header cast both operands to \<^verbatim>\<open>uint32_t\<close>; the surrogate
  bounds are \<^verbatim>\<open>uint16_t\<close> constants and are widened by \<open>ucast\<close>.\<close>

type_synonym code_point = "32 word"

definition lead_surrogate_min :: "16 word" where
  "lead_surrogate_min = 0xd800"

definition lead_surrogate_max :: "16 word" where
  "lead_surrogate_max = 0xdbff"

definition trail_surrogate_min :: "16 word" where
  "trail_surrogate_min = 0xdc00"

definition trail_surrogate_max :: "16 word" where
  "trail_surrogate_max = 0xdfff"

definition code_point_max :: "32 word" where
  "code_point_max = 0x10ffff"

definition cp_ge :: "code_point \<Rightarrow> 16 word \<Rightarrow> bool" where
  "cp_ge a b = ((ucast b :: 32 word) \<le> a)"

definition cp_le :: "code_point \<Rightarrow> 16 word \<Rightarrow> bool" where
  "cp_le a b = (a \<le> (ucast b :: 32 word))"

definition is_surrogate :: "code_point \<Rightarrow> bool" where
  "is_surrogate cp = (cp_ge cp lead_surrogate_min \<and> cp_le cp trail_surrogate_max)"

definition is_code_point_valid :: "code_point \<Rightarrow> bool" where
  "is_code_point_valid cp = (cp \<le> code_point_max \<and> \<not> is_surrogate cp)"

definition is_valid_code_point :: "code_point \<Rightarrow> bool" where
  "is_valid_code_point cp = is_code_point_valid cp"

definition is_ascii_code_point :: "code_point \<Rightarrow> bool" where
  "is_ascii_code_point cp = (cp \<le> 0x7f)"

section \<open>Errors (the error class used throughout range.h, scan.h and locale.cpp)\<close>

text \<open>The class \<^verbatim>\<open>scn::error\<close> is declared in result.h. It is a pair of an error code and a
  message; the codes below are the ones the sources under study construct, plus \<open>good\<close>, the
  value of a default-constructed \<^verbatim>\<open>error{}\<close>. \<^verbatim>\<open>operator bool\<close> is true for \<open>good\<close> only,
  so \<^verbatim>\<open>if (!err)\<close> is the branch taken when there is an error.\<close>

datatype error_code =
    good
  | end_of_range
  | invalid_scanned_value
  | invalid_operation
  | value_out_of_range
  | invalid_encoding
  | exceptions_required
  | unrecoverable_source_error
  | unrecoverable_internal_error

record error =
  code :: error_code
  msg :: string

definition mk_error :: "error_code \<Rightarrow> string \<Rightarrow> error" where
  "mk_error c m = \<lparr>code = c, msg = m\<rparr>"

definition no_error :: error where
  "no_error = \<lparr>code = good, msg = []\<rparr>"

definition is_good :: "error \<Rightarrow> bool" where
  "is_good e = (code e = good)"

section \<open>The range wrapper (range.h)\<close>

text \<open>The underlying range object. An iterator is a raw position (an address, \<open>int\<close>);
  \<open>base\<close> is the position \<^verbatim>\<open>ranges::begin\<close> returns for this object and \<open>chars\<close> are the
  elements of \<open>[begin, end)\<close>. The two flags are the compile-time traits of the range
  type: \<^verbatim>\<open>is_caching_range<Range>::value\<close> and \<^verbatim>\<open>is_contiguous_impl<Range>::value\<close>.\<close>

record 'c source =
  base :: int
  chars :: "'c list"
  caching :: bool
  contiguous :: bool

text \<open>\<^verbatim>\<open>range_wrapper<Range>\<close>: the stored range, the current iterator and the number of
  elements consumed since the rollback point (a signed \<^verbatim>\<open>difference_type\<close>).\<close>

record 'c range_wrapper =
  m_range :: "'c source"
  m_begin :: int
  m_read :: int

definition range_wrapper_ctor :: "'c source \<Rightarrow> 'c range_wrapper" where
  "range_wrapper_ctor r = \<lparr>m_range = r, m_begin = base r, m_read = 0\<rparr>"

definition begin_underlying :: "'c range_wrapper \<Rightarrow> int" where
  "begin_underlying w = base (m_range w)"

definition wrapper_begin :: "'c range_wrapper \<Rightarrow> int" where
  "wrapper_begin w = m_begin w"

definition wrapper_end :: "'c range_wrapper \<Rightarrow> int" where
  "wrapper_end w = base (m_range w) + int (length (chars (m_range w)))"

text \<open>\<^verbatim>\<open>ranges::distance(a, b)\<close> on positions.\<close>

definition distance :: "int \<Rightarrow> int \<Rightarrow> int" where
  "distance a b = b - a"

definition advance :: "int \<Rightarrow> 'c range_wrapper \<Rightarrow> 'c range_wrapper" where
  "advance n w =
     (let w1 = w\<lparr>m_read := m_read w + n\<rparr>
      in if \<not> caching (m_range w1) then w1\<lparr>m_begin := m_begin w1 + n\<rparr> else w1)"

definition advance_to :: "int \<Rightarrow> 'c range_wrapper \<Rightarrow> 'c range_wrapper" where
  "advance_to it w =
     (let diff = distance (m_begin w) it
      in w\<lparr>m_read := m_read w + diff, m_begin := it\<rparr>)"

definition set_rollback_point :: "'c range_wrapper \<Rightarrow> 'c range_wrapper" where
  "set_rollback_point w = w\<lparr>m_read := 0\<rparr>"

text \<open>\<^verbatim>\<open>for (; m_read != 0; --m_read) { --m_begin; if (m_begin == end()) return error; }\<close>
  The loop has no bound of its own: with a negative counter it never reaches zero, so the
  model is a partial function and \<open>None\<close> stands for not returning.\<close>

partial_function (option) reset_to_rollback_point ::
  "'c range_wrapper \<Rightarrow> (error \<times> 'c range_wrapper) option" where
  "reset_to_rollback_point w =
     (if m_read w \<noteq> 0 then
        (let w1 = w\<lparr>m_begin := m_begin w - 1\<rparr>
         in if m_begin w1 = wrapper_end w1
            then Some (mk_error unrecoverable_source_error ''Putback failed'', w1)
            else reset_to_rollback_point (w1\<lparr>m_read := m_read w1 - 1\<rparr>))
      else Some (no_error, w))"

text \<open>Copy construction and copy assignment. The stored range is copied; \<open>nb\<close> is the
  position at which the copy's elements start (the same as before for a view or a
  reference, a new one for an owning container). The position is re-derived from the
  offset, not copied.\<close>

definition relocate :: "int \<Rightarrow> 'c source \<Rightarrow> 'c source" where
  "relocate nb r = r\<lparr>base := nb\<rparr>"

definition copy_construct :: "int \<Rightarrow> 'c range_wrapper \<Rightarrow> 'c range_wrapper" where
  "copy_construct nb other =
     (let n = distance (begin_underlying other) (m_begin other);
          r = relocate nb (m_range other)
      in \<lparr>m_range = r, m_begin = base r + n, m_read = m_read other\<rparr>)"

text \<open>Move construction: as the copy, and the source object's counter is exchanged with 0.
  The pair is (new object, moved-from object).\<close>

definition move_construct ::
  "int \<Rightarrow> 'c range_wrapper \<Rightarrow> 'c range_wrapper \<times> 'c range_wrapper" where
  "move_construct nb other =
     (let n = distance (begin_underlying other) (m_begin other);
          r = relocate nb (m_range other)
      in (\<lparr>m_range = r, m_begin = base r + n, m_read = m_read other\<rparr>,
          other\<lparr>m_read := 0\<rparr>))"

text \<open>\<^verbatim>\<open>rewrap<R>()\<close> with \<open>R\<close> the wrapped type itself.\<close>

definition rewrap_same :: "int \<Rightarrow> 'c range_wrapper \<Rightarrow> 'c range_wrapper" where
  "rewrap_same nb w =
     (let n = distance (begin_underlying w) (wrapper_begin w);
          r = range_wrapper_ctor (relocate nb (m_range w));
          r = advance n r;
          r = set_rollback_point r
      in r)"

text \<open>Reading through the wrapper. \<open>remaining\<close> is the sequence \<open>[begin(), end())\<close>; it is
  defined only while the position lies inside the underlying range.\<close>

definition remaining :: "'c range_wrapper \<Rightarrow> 'c list option" where
  "remaining w =
     (let off = distance (begin_underlying w) (wrapper_begin w)
      in if 0 \<le> off \<and> off \<le> int (length (chars (m_range w)))
         then Some (drop (nat off) (chars (m_range w))) else None)"

text \<open>\<^verbatim>\<open>rewrap<R>()\<close> with another type \<open>R\<close>: \<^verbatim>\<open>reconstruct(tag, begin(), end())\<close> builds a
  new range from the remaining elements (a position outside the range is undefined
  behaviour, \<open>None\<close>) and a fresh wrapper is constructed over it. The traits are those of
  the new type.\<close>

definition rewrap_reconstruct ::
  "int \<Rightarrow> bool \<Rightarrow> bool \<Rightarrow> 'c range_wrapper \<Rightarrow> 'c range_wrapper option" where
  "rewrap_reconstruct nb cach contig w =
     (case remaining w of
        None \<Rightarrow> None
      | Some xs \<Rightarrow>
          Some (range_wrapper_ctor \<lparr>base = nb, chars = xs, caching = cach, contiguous = contig\<rparr>))"

section \<open>Example inputs\<close>

text \<open>A contiguous, non-caching buffer holding \<open>hello\<close> at address 100.\<close>

definition hello_source :: "char source" where
  "hello_source = \<lparr>base = 100, chars = ''hello'', caching = False, contiguous = True\<rparr>"


section \<open>Localized number reading (locale.cpp)\<close>

text \<open>\<^verbatim>\<open>std::numeric_limits<T>::max()\<close> and \<^verbatim>\<open>min()\<close> of an integral type \<open>T\<close> with
  \<open>LENGTH('a)\<close> bits; the flag is \<^verbatim>\<open>std::is_signed<T>\<close>.\<close>

definition numeric_limits_max :: "bool \<Rightarrow> 'a::len word" where
  "numeric_limits_max is_signed = (if is_signed then word_of_int (2 ^ (LENGTH('a) - 1) - 1) else - 1)"

definition numeric_limits_min :: "bool \<Rightarrow> 'a::len word" where
  "numeric_limits_min is_signed = (if is_signed then word_of_int (- (2 ^ (LENGTH('a) - 1))) else 0)"

text \<open>\<^verbatim>\<open>read_num_check_range\<close>, the overload for integral types.\<close>

definition read_num_check_range_int :: "bool \<Rightarrow> 'a::len word \<Rightarrow> error" where
  "read_num_check_range_int is_signed val =
     (if val = numeric_limits_max is_signed
      then mk_error value_out_of_range ''Scanned number out of range: overflow''
      else if val = numeric_limits_min is_signed
      then mk_error value_out_of_range ''Scanned number out of range: underflow''
      else mk_error invalid_scanned_value ''Localized number read failed'')"

text \<open>Values of a floating-point type, as far as \<^verbatim>\<open>==\<close> and unary minus see them: not a
  number, an infinity with its sign, or a finite number (the two zeros compare equal and
  are one value here). \<open>fp_eq\<close> is \<^verbatim>\<open>==\<close>: false whenever an operand is not a number.\<close>

datatype fp = fp_nan | fp_inf bool | fp_fin real

fun fp_eq :: "fp \<Rightarrow> fp \<Rightarrow> bool" where
  "fp_eq fp_nan _ = False"
| "fp_eq _ fp_nan = False"
| "fp_eq (fp_inf a) (fp_inf b) = (a = b)"
| "fp_eq (fp_fin x) (fp_fin y) = (x = y)"
| "fp_eq _ _ = False"

fun fp_neg :: "fp \<Rightarrow> fp" where
  "fp_neg fp_nan = fp_nan"
| "fp_neg (fp_inf a) = fp_inf (\<not> a)"
| "fp_neg (fp_fin x) = fp_fin (- x)"

text \<open>\<^verbatim>\<open>read_num_check_range\<close>, the overload for floating-point types; \<open>mx\<close> is
  \<^verbatim>\<open>std::numeric_limits<T>::max()\<close>, the largest finite value of the type.\<close>

definition read_num_check_range_float :: "real \<Rightarrow> fp \<Rightarrow> error" where
  "read_num_check_range_float mx val =
     (if fp_eq val (fp_fin mx) \<or> fp_eq val (fp_neg (fp_fin mx))
      then mk_error value_out_of_range ''Scanned number out of range: overflow''
      else if fp_eq val (fp_fin 0)
      then mk_error value_out_of_range ''Scanned number out of range: underflow''
      else mk_error invalid_scanned_value ''Localized number read failed'')"

text \<open>What \<^verbatim>\<open>ss >> tmp\<close> on the imbued string stream did: it threw
  \<^verbatim>\<open>std::ios_base::failure\<close> (with its \<^verbatim>\<open>what()\<close>), or it returned, leaving the stream
  flags \<^verbatim>\<open>bad()\<close>, \<^verbatim>\<open>fail()\<close>, \<^verbatim>\<open>eof()\<close>, the extracted \<^verbatim>\<open>tmp\<close> and \<^verbatim>\<open>tellg()\<close>.\<close>

datatype 'a extraction =
    threw string
  | extracted (ss_bad: bool) (ss_fail: bool) (ss_eof: bool) (ss_tmp: 'a) (ss_tellg: int)

text \<open>\<^verbatim>\<open>do_read_num\<close>. \<open>has_exceptions\<close> is \<^verbatim>\<open>SCN_HAS_EXCEPTIONS\<close>, \<open>check_range\<close> the overload
  of \<^verbatim>\<open>read_num_check_range\<close> chosen for \<open>T\<close>, \<open>val\<close> the output parameter (returned as the
  second component) and \<open>buf_size\<close> is \<^verbatim>\<open>buf.size()\<close>.\<close>

definition do_read_num ::
  "bool \<Rightarrow> ('a \<Rightarrow> error) \<Rightarrow> 'a extraction \<Rightarrow> 'a \<Rightarrow> nat \<Rightarrow> (error + int) \<times> 'a" where
  "do_read_num has_exceptions check_range ex val buf_size =
     (if has_exceptions then
        (case ex of
           threw what \<Rightarrow> (Inl (mk_error invalid_scanned_value what), val)
         | extracted bad fail eof tmp pos \<Rightarrow>
             if bad then
               (Inl (mk_error unrecoverable_internal_error ''Localized stringstream is bad''), val)
             else if fail then (Inl (check_range tmp), val)
             else (Inr (if eof then int buf_size else pos), tmp))
      else
        (Inl (mk_error exceptions_required
           ''Localized number reading is only supported with exceptions enabled''), val))"

section \<open>Locale classification of a span (locale.cpp)\<close>

text \<open>\<^verbatim>\<open>std::codecvt_base::result\<close>, and what one call of \<^verbatim>\<open>facet.in\<close> did: its result, the
  number of source units it consumed (\<^verbatim>\<open>from_next - from_begin\<close>) and the wide units it
  wrote (at most one: the target has room for one).\<close>

datatype codecvt_result = cv_ok | cv_partial | cv_error | cv_noconv

record conversion =
  cv_result :: codecvt_result
  cv_consumed :: nat
  cv_written :: "32 word list"

text \<open>\<^verbatim>\<open>SCN_EXPECT\<close> and \<^verbatim>\<open>SCN_ENSURE\<close> are the contract macros of config.h. The flag
  \<open>contracts\<close> says whether they are compiled in; a violated contract stops the program
  and is the result \<open>None\<close>.

  \<^verbatim>\<open>convert_to_wide_impl(locale, from_begin, from_end)\<close>, the overload that returns one
  wide unit. \<open>facet_in\<close> is the \<^verbatim>\<open>codecvt\<close> facet of the locale; \<^verbatim>\<open>to\<close> starts as zero.\<close>

definition convert_to_wide_impl ::
  "bool \<Rightarrow> (8 word list \<Rightarrow> conversion) \<Rightarrow> 8 word list \<Rightarrow> (error + 32 word) option" where
  "convert_to_wide_impl contracts facet_in from =
     (let r = facet_in from;
          to = (case cv_written r of [] \<Rightarrow> 0 | c # _ \<Rightarrow> c)
      in if contracts \<and> cv_result r = cv_noconv then None
         else if contracts \<and> cv_consumed r \<noteq> length from then None
         else if contracts \<and> length (cv_written r) \<noteq> 1 then None
         else if cv_result r \<noteq> cv_ok
              then Some (Inl (mk_error invalid_encoding ''Invalid encoding''))
              else Some (Inr to))"

text \<open>The span overloads \<^verbatim>\<open>do_is_space\<close>, \<^verbatim>\<open>do_is_digit\<close>, \<^verbatim>\<open>is_blank\<close> and the nine
  predicates generated by \<^verbatim>\<open>SCN_DEFINE_CUSTOM_LOCALE_CTYPE\<close> share one body, which differs
  only in the standard classification function \<open>std_is\<close> applied at the end. This is the
  instance for \<^verbatim>\<open>CharT = char\<close>, where \<^verbatim>\<open>sizeof(CharT) == 1\<close> holds.\<close>

definition is_ctype_span_char ::
  "bool \<Rightarrow> (8 word list \<Rightarrow> conversion) \<Rightarrow> (32 word \<Rightarrow> bool) \<Rightarrow> 8 word list \<Rightarrow> bool option" where
  "is_ctype_span_char contracts facet_in std_is ch =
     (if contracts \<and> \<not> 1 \<le> length ch then None
      else (case convert_to_wide_impl contracts facet_in ch of
              None \<Rightarrow> None
            | Some (Inl e) \<Rightarrow> Some False
            | Some (Inr wch) \<Rightarrow> Some (std_is wch)))"

text \<open>The instance for \<^verbatim>\<open>CharT = wchar_t\<close>: the span must hold one unit, which is classified
  directly (reading \<^verbatim>\<open>ch[0]\<close> of an empty span has no defined result).\<close>

definition is_ctype_span_wchar ::
  "bool \<Rightarrow> (32 word \<Rightarrow> bool) \<Rightarrow> 32 word list \<Rightarrow> bool option" where
  "is_ctype_span_wchar contracts std_is ch =
     (if contracts \<and> length ch \<noteq> 1 then None
      else (case ch of [] \<Rightarrow> None | c # _ \<Rightarrow> Some (std_is c)))"

text \<open>A \<^verbatim>\<open>codecvt\<close> facet that decodes one-byte ASCII and rejects everything else, and
  the blank test on wide units.\<close>

definition wide_is_space :: "32 word \<Rightarrow> bool" where
  "wide_is_space c = (c = 0x20 \<or> (9 \<le> c \<and> c \<le> 13))"

definition ascii_facet_in :: "8 word list \<Rightarrow> conversion" where
  "ascii_facet_in from =
     (case from of
        [b] \<Rightarrow> if b \<le> 0x7f then \<lparr>cv_result = cv_ok, cv_consumed = 1, cv_written = [ucast b]\<rparr>
               else \<lparr>cv_result = cv_error, cv_consumed = 0, cv_written = []\<rparr>
      | _ \<Rightarrow> \<lparr>cv_result = cv_error, cv_consumed = 0, cv_written = []\<rparr>)"

section \<open>Wrapping the input and the result (range.h)\<close>

text \<open>What a scanning function is called with: a range wrapper, or a range that
  \<^verbatim>\<open>detail::wrap\<close> wraps (a string, view or span through a \<^verbatim>\<open>basic_string_view\<close> over the
  same elements, any other range by reference). Wrapping a wrapper copies it.\<close>

datatype 'c scan_input = wrapped_input "'c range_wrapper" | range_input "'c source"

definition wrap :: "int \<Rightarrow> 'c scan_input \<Rightarrow> 'c range_wrapper" where
  "wrap nb inp =
     (case inp of
        wrapped_input w \<Rightarrow> copy_construct nb w
      | range_input r \<Rightarrow> range_wrapper_ctor r)"

text \<open>The overload of \<^verbatim>\<open>_wrap_result::fn::impl\<close> that the types select, in the order of the
  source:
  \<^item> \<open>wrapper_passthrough\<close>: the original is a range wrapper (three overloads, priority 3);
  \<^item> \<open>string_literal\<close>: the original is a character array (priority 2);
  \<^item> \<open>lvalue_nonref\<close>: \<^verbatim>\<open>InputRange&\<close>, wrapper of a non-reference: not reconstructed;
  \<^item> \<open>lvalue_ref\<close>: \<^verbatim>\<open>InputRange&\<close>, wrapper of a reference: \<^verbatim>\<open>rewrap<NoRef>()\<close>;
  \<^item> \<open>rvalue_nonref_same\<close>: \<^verbatim>\<open>InputRange&&\<close>, wrapper of a non-reference,
    \<^verbatim>\<open>rewrap<InputRange>()\<close> where \<^verbatim>\<open>InputRange\<close> is the wrapped type;
  \<^item> \<open>rvalue_nonref_other\<close>: the same overload where \<^verbatim>\<open>InputRange\<close> is another type, which
    is reconstructed from the remaining elements (the flags are the traits of that type);
  \<^item> \<open>rvalue_ref\<close>: \<^verbatim>\<open>InputRange&&\<close>, wrapper of a reference: \<^verbatim>\<open>rewrap<NoRef>()\<close>.\<close>

datatype result_case =
    wrapper_passthrough
  | string_literal
  | lvalue_nonref
  | lvalue_ref
  | rvalue_nonref_same
  | rvalue_nonref_other bool bool
  | rvalue_ref

text \<open>\<^verbatim>\<open>wrap_result(e, tag, range)\<close> (the wrapper is \<open>rng\<close> here): the result holds the error and a wrapper that is
  move-constructed from the given one, directly or after a rewrap. \<open>nb\<close> is where the
  result's storage starts.\<close>

definition wrap_result ::
  "error \<Rightarrow> result_case \<Rightarrow> int \<Rightarrow> 'c range_wrapper \<Rightarrow> (error \<times> 'c range_wrapper) option" where
  "wrap_result e tag nb rng =
     (case tag of
        wrapper_passthrough \<Rightarrow> Some (e, fst (move_construct nb rng))
      | string_literal \<Rightarrow> Some (e, fst (move_construct nb rng))
      | lvalue_nonref \<Rightarrow> Some (e, fst (move_construct nb rng))
      | lvalue_ref \<Rightarrow> Some (e, fst (move_construct nb (rewrap_same nb rng)))
      | rvalue_nonref_same \<Rightarrow> Some (e, fst (move_construct nb (rewrap_same nb rng)))
      | rvalue_nonref_other cach contig \<Rightarrow>
          (case rewrap_reconstruct nb cach contig rng of
             None \<Rightarrow> None
           | Some r \<Rightarrow> Some (e, fst (move_construct nb r)))
      | rvalue_ref \<Rightarrow> Some (e, fst (move_construct nb (rewrap_same nb rng))))"

section \<open>Reading primitives (reader.h)\<close>

text \<open>Modelled from the spec: reader.h, which defines \<^verbatim>\<open>read_char\<close>, \<^verbatim>\<open>putback_n\<close>,
  \<^verbatim>\<open>read_until_space\<close>, \<^verbatim>\<open>read_until_space_zero_copy\<close> and \<^verbatim>\<open>read_until_space_ranged\<close>, is
  not among the sources. The spec gives: a cursor is advanced with \<open>advance\<close>, which
  counts what is consumed since the checkpoint (4.1); \<open>end_of_range\<close> is the signal that
  the source is exhausted (7); \<open>scan_list\<close> reads the separator so that the next element
  can be scanned (8: \<open>1,2,3\<close> gives three elements) and \<open>scan_list_until\<close> puts a character
  back (4.4); \<open>getline\<close> reads up to the delimiter, binds a view over the underlying buffer
  of a contiguous cursor without a copy and otherwise accumulates by copy, trimming one
  trailing delimiter (4.4); \<open>ignore_until\<close> advances until the delimiter is found, the
  bounded variant until \<open>n\<close> characters are discarded, whichever is first (4.4).\<close>

definition read_char :: "'c range_wrapper \<Rightarrow> (error + 'c) \<times> 'c range_wrapper" where
  "read_char r =
     (case remaining r of
        Some (ch # _) \<Rightarrow> (Inr ch, advance 1 r)
      | _ \<Rightarrow> (Inl (mk_error end_of_range ''EOF''), r))"

definition putback_n :: "'c range_wrapper \<Rightarrow> int \<Rightarrow> 'c range_wrapper" where
  "putback_n r n = advance (- n) r"

text \<open>The characters one \<^verbatim>\<open>read_until_space\<close> call consumes: those before the first one
  for which \<open>is_space\<close> holds, and that one too when \<open>keep_final_space\<close> is set.\<close>

fun span_until :: "('c \<Rightarrow> bool) \<Rightarrow> bool \<Rightarrow> 'c list \<Rightarrow> 'c list" where
  "span_until is_space keep_final_space [] = []"
| "span_until is_space keep_final_space (x # xs) =
     (if is_space x then (if keep_final_space then [x] else [])
      else x # span_until is_space keep_final_space xs)"

definition read_until_space ::
  "'c range_wrapper \<Rightarrow> ('c \<Rightarrow> bool) \<Rightarrow> bool \<Rightarrow> error \<times> 'c list \<times> 'c range_wrapper" where
  "read_until_space r is_space keep_final_space =
     (case remaining r of
        Some (x # xs) \<Rightarrow>
          (let out = span_until is_space keep_final_space (x # xs)
           in (no_error, out, advance (int (length out)) r))
      | _ \<Rightarrow> (mk_error end_of_range ''EOF'', [], r))"

text \<open>The bounded variant writes at most \<open>n\<close> characters (a negative \<open>n\<close> is never reached
  by the output position, which counts up from zero).\<close>

definition read_until_space_ranged ::
  "'c range_wrapper \<Rightarrow> int \<Rightarrow> ('c \<Rightarrow> bool) \<Rightarrow> bool \<Rightarrow> error \<times> 'c list \<times> 'c range_wrapper" where
  "read_until_space_ranged r n is_space keep_final_space =
     (case remaining r of
        Some (x # xs) \<Rightarrow>
          (let lim = (if n < 0 then x # xs else take (nat n) (x # xs));
               out = span_until is_space keep_final_space lim
           in (no_error, out, advance (int (length out)) r))
      | _ \<Rightarrow> (mk_error end_of_range ''EOF'', [], r))"




section \<open>Scanning operations (scan.h)\<close>

subsection \<open>ignore_until\<close>

text \<open>The output iterators \<^verbatim>\<open>ignore_iterator\<close> and \<^verbatim>\<open>ignore_iterator_n\<close> discard what is
  written to them; the second counts the writes up to \<open>n\<close>.\<close>

definition ignore_until_impl :: "'c range_wrapper \<Rightarrow> 'c \<Rightarrow> error \<times> 'c range_wrapper" where
  "ignore_until_impl r until =
     (case read_until_space r (\<lambda>ch. ch = until) False of (e, out, r1) \<Rightarrow> (e, r1))"

definition ignore_until_n_impl ::
  "'c range_wrapper \<Rightarrow> int \<Rightarrow> 'c \<Rightarrow> error \<times> 'c range_wrapper" where
  "ignore_until_n_impl r n until =
     (case read_until_space_ranged r n (\<lambda>ch. ch = until) False of (e, out, r1) \<Rightarrow> (e, r1))"

text \<open>\<^verbatim>\<open>ignore_until(r, until)\<close>. The branch \<^verbatim>\<open>if (!err)\<close> is the one with an error: the
  wrapper is reset to its rollback point, and an error of the reset replaces the first
  one. \<open>None\<close> is a reset that does not return.\<close>

definition ignore_until ::
  "int \<Rightarrow> result_case \<Rightarrow> 'c scan_input \<Rightarrow> 'c \<Rightarrow> (error \<times> 'c range_wrapper) option" where
  "ignore_until nb tag r until =
     (let wrapped = wrap nb r
      in case ignore_until_impl wrapped until of
           (err, wrapped1) \<Rightarrow>
             if \<not> is_good err then
               (case reset_to_rollback_point wrapped1 of
                  None \<Rightarrow> None
                | Some (e, wrapped2) \<Rightarrow>
                    wrap_result (if \<not> is_good e then e else err) tag nb wrapped2)
             else wrap_result err tag nb wrapped1)"

definition ignore_until_n ::
  "int \<Rightarrow> result_case \<Rightarrow> 'c scan_input \<Rightarrow> int \<Rightarrow> 'c \<Rightarrow> (error \<times> 'c range_wrapper) option" where
  "ignore_until_n nb tag r n until =
     (let wrapped = wrap nb r
      in case ignore_until_n_impl wrapped n until of
           (err, wrapped1) \<Rightarrow>
             if \<not> is_good err then
               (case reset_to_rollback_point wrapped1 of
                  None \<Rightarrow> None
                | Some (e, wrapped2) \<Rightarrow>
                    wrap_result (if \<not> is_good e then e else err) tag nb wrapped2)
             else wrap_result err tag nb wrapped1)"

subsection \<open>getline\<close>





subsection \<open>scan_list and scan_list_until\<close>

text \<open>The container: its elements and its \<^verbatim>\<open>max_size()\<close>. \<^verbatim>\<open>push_back\<close> needs room
  (\<^verbatim>\<open>span_list_wrapper::push_back\<close> expects \<^verbatim>\<open>n < max_size()\<close>); \<open>None\<close> is a push into a
  container without room.\<close>

record 'v container =
  elems :: "'v list"
  max_size :: nat

definition c_size :: "'v container \<Rightarrow> nat" where
  "c_size c = length (elems c)"

definition push_back :: "'v \<Rightarrow> 'v container \<Rightarrow> 'v container option" where
  "push_back v c = (if c_size c < max_size c then Some (c\<lparr>elems := elems c @ [v]\<rparr>) else None)"

text \<open>The loop of \<^verbatim>\<open>scan_list\<close>. \<open>scan_one\<close> stands for the call
  \<^verbatim>\<open>vscan(ctx, pctx, {args})\<close> that scans one value with the default options: from the
  cursor it gives the error, the value and the cursor after the call. \<open>rd\<close> is
  \<^verbatim>\<open>read_char\<close>. The separator is \<open>None\<close> for the value zero, which means that no
  separator is expected. The result is the error handed to \<^verbatim>\<open>wrap_result\<close>, the cursor and the
  container; every \<^verbatim>\<open>break\<close> leads to the final \<^verbatim>\<open>wrapped_error{}\<close>.\<close>

function scan_list_loop ::
  "('c range_wrapper \<Rightarrow> error \<times> 'v \<times> 'c range_wrapper)
   \<Rightarrow> ('c range_wrapper \<Rightarrow> (error + 'c) \<times> 'c range_wrapper)
   \<Rightarrow> 'c option \<Rightarrow> 'c range_wrapper \<Rightarrow> 'v container
   \<Rightarrow> (error \<times> 'c range_wrapper \<times> 'v container) option" where
  "scan_list_loop scan_one rd separator ctx c =
     (if c_size c = max_size c then Some (no_error, ctx, c)
      else
        (case scan_one ctx of
           (err, val, ctx1) \<Rightarrow>
             if \<not> is_good err then
               (if code err = end_of_range then Some (no_error, ctx1, c)
                else Some (err, ctx1, c))
             else
               (case push_back val c of
                  None \<Rightarrow> None
                | Some c1 \<Rightarrow>
                    (case separator of
                       Some sep \<Rightarrow>
                         (case rd ctx1 of
                            (Inl e, ctx2) \<Rightarrow>
                              if code e = end_of_range then Some (no_error, ctx2, c1)
                              else Some (e, ctx2, c1)
                          | (Inr ch, ctx2) \<Rightarrow>
                              if ch = sep then scan_list_loop scan_one rd separator ctx2 c1
                              else Some (no_error, ctx2, c1))
                     | None \<Rightarrow> scan_list_loop scan_one rd separator ctx1 c1))))"
  by pat_completeness auto
termination
  by (relation "measure (\<lambda>(scan_one, rd, separator, ctx, c). max_size c - c_size c)")
    (auto simp: push_back_def c_size_def split: if_splits)

declare scan_list_loop.simps [simp del]

text \<open>\<^verbatim>\<open>scan_list(r, c, separator)\<close>: the result of \<^verbatim>\<open>wrap_result\<close> and the container.\<close>

definition scan_list ::
  "('c range_wrapper \<Rightarrow> error \<times> 'v \<times> 'c range_wrapper)
   \<Rightarrow> int \<Rightarrow> result_case \<Rightarrow> 'c scan_input \<Rightarrow> 'v container \<Rightarrow> 'c option
   \<Rightarrow> ((error \<times> 'c range_wrapper) \<times> 'v container) option" where
  "scan_list scan_one nb tag r c separator =
     (let ctx = wrap nb r
      in case scan_list_loop scan_one read_char separator ctx c of
           None \<Rightarrow> None
         | Some (err, ctx1, c1) \<Rightarrow>
             (case wrap_result err tag nb ctx1 of
                None \<Rightarrow> None
              | Some res \<Rightarrow> Some (res, c1)))"

text \<open>The loop of \<^verbatim>\<open>scan_list_until\<close>. \<open>pb\<close> is \<^verbatim>\<open>putback_n\<close> and \<open>is_space\<close> is
  \<^verbatim>\<open>ctx.locale().is_space\<close>. The second \<^verbatim>\<open>read_char\<close> is followed by
  \<^verbatim>\<open>next.value()\<close> without a check; on an error that has no defined result (\<open>None\<close>).\<close>

function scan_list_until_loop ::
  "('c range_wrapper \<Rightarrow> error \<times> 'v \<times> 'c range_wrapper)
   \<Rightarrow> ('c range_wrapper \<Rightarrow> (error + 'c) \<times> 'c range_wrapper)
   \<Rightarrow> ('c range_wrapper \<Rightarrow> int \<Rightarrow> 'c range_wrapper)
   \<Rightarrow> ('c \<Rightarrow> bool)
   \<Rightarrow> 'c \<Rightarrow> 'c option \<Rightarrow> 'c range_wrapper \<Rightarrow> 'v container
   \<Rightarrow> (error \<times> 'c range_wrapper \<times> 'v container) option" where
  "scan_list_until_loop scan_one rd pb is_space until separator ctx c =
     (if c_size c = max_size c then Some (no_error, ctx, c)
      else
        (case scan_one ctx of
           (err, val, ctx1) \<Rightarrow>
             if \<not> is_good err then
               (if code err = end_of_range then Some (no_error, ctx1, c)
                else Some (err, ctx1, c))
             else
               (case push_back val c of
                  None \<Rightarrow> None
                | Some c1 \<Rightarrow>
                    (case rd ctx1 of
                       (Inl e, ctx2) \<Rightarrow>
                         if code e = end_of_range then Some (no_error, ctx2, c1)
                         else Some (e, ctx2, c1)
                     | (Inr next, ctx2) \<Rightarrow>
                         if next = until then Some (no_error, ctx2, c1)
                         else if (case separator of
                                    Some sep \<Rightarrow> next \<noteq> sep
                                  | None \<Rightarrow> \<not> is_space next)
                         then Some (no_error, ctx2, c1)
                         else
                           (case rd ctx2 of
                              (Inl e, ctx3) \<Rightarrow> None
                            | (Inr next2, ctx3) \<Rightarrow>
                                if next2 = until then Some (no_error, ctx3, c1)
                                else scan_list_until_loop scan_one rd pb is_space until separator
                                       (pb ctx3 1) c1)))))"
  by pat_completeness auto
termination
  by (relation "measure (\<lambda>(scan_one, rd, pb, is_space, until, separator, ctx, c).
                            max_size c - c_size c)")
    (auto simp: push_back_def c_size_def split: if_splits)

declare scan_list_until_loop.simps [simp del]

definition scan_list_until ::
  "('c range_wrapper \<Rightarrow> error \<times> 'v \<times> 'c range_wrapper) \<Rightarrow> ('c \<Rightarrow> bool)
   \<Rightarrow> int \<Rightarrow> result_case \<Rightarrow> 'c scan_input \<Rightarrow> 'v container \<Rightarrow> 'c \<Rightarrow> 'c option
   \<Rightarrow> ((error \<times> 'c range_wrapper) \<times> 'v container) option" where
  "scan_list_until scan_one is_space nb tag r c until separator =
     (let ctx = wrap nb r
      in case scan_list_until_loop scan_one read_char putback_n is_space until separator ctx c of
           None \<Rightarrow> None
         | Some (err, ctx1, c1) \<Rightarrow>
             (case wrap_result err tag nb ctx1 of
                None \<Rightarrow> None
              | Some res \<Rightarrow> Some (res, c1)))"

text \<open>A value scanner for the examples: it reads one character and accepts a decimal
  digit, whose value it yields; anything else is \<open>invalid_scanned_value\<close>, and the end of
  the input is passed on.\<close>

definition digit_value :: "char \<Rightarrow> nat option" where
  "digit_value ch =
     (let n = (of_char ch :: nat) in if 48 \<le> n \<and> n \<le> 57 then Some (n - 48) else None)"

definition scan_digit :: "char range_wrapper \<Rightarrow> error \<times> nat \<times> char range_wrapper" where
  "scan_digit r =
     (case read_char r of
        (Inl e, r1) \<Rightarrow> (e, 0, r1)
      | (Inr ch, r1) \<Rightarrow>
          (case digit_value ch of
             None \<Rightarrow> (mk_error invalid_scanned_value ''not a digit'', 0, r)
           | Some d \<Rightarrow> (no_error, d, r1)))"

text \<open>A contiguous, non-caching buffer holding \<open>1,2 3\<close> at address 0.\<close>

definition list_source :: "char source" where
  "list_source = \<lparr>base = 0, chars = ''1,2 3'', caching = False, contiguous = True\<rparr>"

text \<open>A buffer holding \<open>1;2\<close> at address 0, and the blank test of the classic locale.\<close>

definition until_source :: "char source" where
  "until_source = \<lparr>base = 0, chars = ''1;2'', caching = False, contiguous = True\<rparr>"

definition ascii_is_space :: "char \<Rightarrow> bool" where
  "ascii_is_space ch = (ch = CHR '' '' \<or> (9 \<le> (of_char ch :: nat) \<and> (of_char ch :: nat) \<le> 13))"

text \<open>The overloads of \<^verbatim>\<open>wrap_result\<close> that hand the scanned wrapper on as it is (the other
  ones rewrap it).\<close>

definition passes_cursor_through :: "result_case \<Rightarrow> bool" where
  "passes_cursor_through tag =
     (tag = wrapper_passthrough \<or> tag = string_literal \<or> tag = lvalue_nonref)"



subsection \<open>scan and scan_default\<close>

text \<open>Modelled from the spec: \<^verbatim>\<open>vscan\<close>, the argument store and the parse contexts
  \<^verbatim>\<open>basic_parse_context\<close> and \<^verbatim>\<open>basic_empty_parse_context\<close> (vscan.h and the headers it
  includes) are not among the sources. The spec gives: the format collaborator supplies
  the next argument index and its modifiers, placeholders mark argument positions that
  are consumed left to right, the engine calls the formatter once per expected
  placeholder and aborts on a syntax error it reports (1, 6); per placeholder, in order,
  the matching argument's scan capability is invoked against the cursor, and the scan
  stops at the first failure with what was consumed so far still consumed (4.4); a type
  scanner gets the target, the parse context and the cursor and reports success or
  failure (6); \<open>scan_default\<close> has an implicit format of one placeholder per argument
  (4.4), which the source comment spells out as space-separated \<^verbatim>\<open>{}\<close>.

  An argument is its scan capability: from the modifiers of its placeholder and the cursor
  it gives the error, the scanned value and the cursor after the call. The targets are
  the current values of the arguments.\<close>

type_synonym ('c, 'v) arg = "string \<Rightarrow> 'c range_wrapper \<Rightarrow> error \<times> 'v \<times> 'c range_wrapper"

text \<open>A parse context over a format string (the text still to be read and the index of
  the next argument) or an empty one (the number of placeholders left and the index).\<close>

datatype parse_context = format_ctx string nat | empty_ctx int nat

definition basic_parse_context :: "string \<Rightarrow> parse_context" where
  "basic_parse_context f = format_ctx f 0"

definition basic_empty_parse_context :: "int \<Rightarrow> parse_context" where
  "basic_empty_parse_context n = empty_ctx n 0"

definition format_error :: error where
  "format_error = mk_error invalid_operation ''invalid format string''"

text \<open>The next placeholder: its argument index and modifiers, or a syntax error. In a
  format string, blanks between placeholders are skipped and a placeholder is the text
  from \<^verbatim>\<open>{\<close> to the next \<^verbatim>\<open>}\<close>.\<close>

fun next_arg :: "parse_context \<Rightarrow> (error + nat \<times> string) \<times> parse_context" where
  "next_arg (empty_ctx n k) =
     (if 0 < n then (Inr (k, []), empty_ctx (n - 1) (k + 1))
      else (Inl format_error, empty_ctx n k))"
| "next_arg (format_ctx f k) =
     (case dropWhile (\<lambda>ch. ch = CHR '' '') f of
        [] \<Rightarrow> (Inl format_error, format_ctx f k)
      | ch # cs \<Rightarrow>
          if ch = CHR ''{'' \<and> CHR ''}'' \<in> set cs
          then (Inr (k, takeWhile (\<lambda>ch. ch \<noteq> CHR ''}'') cs),
                format_ctx (tl (dropWhile (\<lambda>ch. ch \<noteq> CHR ''}'') cs)) (k + 1))
          else (Inl format_error, format_ctx f k))"

text \<open>\<open>vscan\<close>: one round per expected placeholder.\<close>

fun vscan_loop ::
  "nat \<Rightarrow> parse_context \<Rightarrow> ('c, 'v) arg list \<Rightarrow> 'v list \<Rightarrow> 'c range_wrapper
   \<Rightarrow> error \<times> 'v list \<times> 'c range_wrapper" where
  "vscan_loop 0 pctx args targets ctx = (no_error, targets, ctx)"
| "vscan_loop (Suc n) pctx args targets ctx =
     (case next_arg pctx of
        (Inl e, pctx1) \<Rightarrow> (e, targets, ctx)
      | (Inr (idx, mods), pctx1) \<Rightarrow>
          if length args \<le> idx then (format_error, targets, ctx)
          else
            (case (args ! idx) mods ctx of
               (e, v, ctx1) \<Rightarrow>
                 if \<not> is_good e then (e, targets, ctx1)
                 else vscan_loop n pctx1 args (targets[idx := v]) ctx1))"

definition vscan ::
  "'c range_wrapper \<Rightarrow> parse_context \<Rightarrow> ('c, 'v) arg list \<Rightarrow> 'v list
   \<Rightarrow> error \<times> 'v list \<times> 'c range_wrapper" where
  "vscan ctx pctx args targets = vscan_loop (length args) pctx args targets ctx"

text \<open>\<^verbatim>\<open>scan_boilerplate<ParseCtx>(r, f, a...)\<close> of scan.h: wrap the input, make the parse
  context from \<open>f\<close>, call \<open>vscan\<close> and wrap the result. \<open>parse_ctx\<close> is the template
  parameter. The result carries the values of the arguments after the call.\<close>

definition scan_boilerplate ::
  "('f \<Rightarrow> parse_context) \<Rightarrow> int \<Rightarrow> result_case \<Rightarrow> 'c scan_input \<Rightarrow> 'f
   \<Rightarrow> ('c, 'v) arg list \<Rightarrow> 'v list \<Rightarrow> ((error \<times> 'c range_wrapper) \<times> 'v list) option" where
  "scan_boilerplate parse_ctx nb tag r f args targets =
     (let ctx = wrap nb r;
          pctx = parse_ctx f
      in case vscan ctx pctx args targets of
           (err, targets1, ctx1) \<Rightarrow>
             (case wrap_result err tag nb ctx1 of
                None \<Rightarrow> None
              | Some res \<Rightarrow> Some (res, targets1)))"

definition scan ::
  "int \<Rightarrow> result_case \<Rightarrow> 'c scan_input \<Rightarrow> string \<Rightarrow> ('c, 'v) arg list \<Rightarrow> 'v list
   \<Rightarrow> ((error \<times> 'c range_wrapper) \<times> 'v list) option" where
  "scan nb tag r f args targets = scan_boilerplate basic_parse_context nb tag r f args targets"

definition scan_default ::
  "int \<Rightarrow> result_case \<Rightarrow> 'c scan_input \<Rightarrow> ('c, 'v) arg list \<Rightarrow> 'v list
   \<Rightarrow> ((error \<times> 'c range_wrapper) \<times> 'v list) option" where
  "scan_default nb tag r args targets =
     scan_boilerplate basic_empty_parse_context nb tag r (int (length args)) args targets"

text \<open>The format string with one \<^verbatim>\<open>{}\<close> per argument, separated by single blanks.\<close>

fun default_format :: "nat \<Rightarrow> string" where
  "default_format 0 = []"
| "default_format (Suc 0) = ''{}''"
| "default_format (Suc (Suc n)) = ''{} '' @ default_format (Suc n)"

text \<open>An argument for the examples: a one-digit number, scanned with \<open>scan_digit\<close> after
  skipping blanks; it takes no modifiers.\<close>

fun skip_blanks :: "nat \<Rightarrow> char range_wrapper \<Rightarrow> char range_wrapper" where
  "skip_blanks 0 r = r"
| "skip_blanks (Suc n) r =
     (case read_char r of
        (Inr ch, r1) \<Rightarrow> if ch = CHR '' '' then skip_blanks n r1 else r
      | (Inl e, r1) \<Rightarrow> r)"

definition digit_arg :: "(char, nat) arg" where
  "digit_arg mods r =
     (if mods \<noteq> [] then (format_error, 0, r)
      else scan_digit (skip_blanks (length (chars (m_range r))) r))"

text \<open>A buffer holding \<open>1,2,3\<close> at address 0.\<close>

definition csv_source :: "char source" where
  "csv_source = \<lparr>base = 0, chars = ''1,2,3'', caching = False, contiguous = True\<rparr>"

section \<open>Properties\<close>

subsection \<open>Code-point validity\<close>

text \<open>Claim C10. \<open>is_valid_code_point cp\<close> is true exactly when \<open>cp \<le> 0x10FFFF\<close> and
  \<open>cp\<close> is outside the surrogate range \<open>0xD800..0xDFFF\<close>; hence every code point accepted
  by \<open>is_ascii_code_point\<close> (\<open>cp \<le> 0x7F\<close>) is valid.\<close>

theorem is_valid_code_point_iff:
  "(is_valid_code_point cp \<longleftrightarrow> cp \<le> 0x10FFFF \<and> \<not> (0xD800 \<le> cp \<and> cp \<le> 0xDFFF))
   \<and> (is_ascii_code_point cp \<longleftrightarrow> cp \<le> 0x7F)
   \<and> (is_ascii_code_point cp \<longrightarrow> is_valid_code_point cp)"
proof -
  have a: "is_valid_code_point cp \<longleftrightarrow> cp \<le> 0x10FFFF \<and> \<not> (0xD800 \<le> cp \<and> cp \<le> 0xDFFF)"
    by (simp add: is_valid_code_point_def is_code_point_valid_def is_surrogate_def cp_ge_def
        cp_le_def lead_surrogate_min_def trail_surrogate_max_def code_point_max_def)
  have b: "is_ascii_code_point cp \<Longrightarrow> is_valid_code_point cp"
  proof -
    assume "is_ascii_code_point cp"
    then have le: "cp \<le> 0x7F" by (simp add: is_ascii_code_point_def)
    have "cp \<le> 0x10FFFF" using le by (rule order_trans) simp
    moreover have "\<not> 0xD800 \<le> cp"
    proof
      assume "0xD800 \<le> cp"
      then have "(0xD800 :: 32 word) \<le> 0x7F" using le by (rule order_trans)
      then show False by simp
    qed
    ultimately show ?thesis using a by simp
  qed
  show ?thesis using a b by (auto simp: is_ascii_code_point_def)
qed

theorem is_valid_code_point_iff_witness:
  "is_ascii_code_point 0x41 \<and> is_valid_code_point 0x41
   \<and> \<not> is_valid_code_point 0xD800 \<and> \<not> is_valid_code_point 0x110000"
  using is_valid_code_point_iff [of "0x41"] is_valid_code_point_iff [of "0xD800"]
    is_valid_code_point_iff [of "0x110000"]
  by simp

subsection \<open>Rollback\<close>

lemma wrapper_end_upd [simp]:
  "wrapper_end (w\<lparr>m_begin := b\<rparr>) = wrapper_end w"
  "wrapper_end (w\<lparr>m_read := r\<rparr>) = wrapper_end w"
  by (simp_all add: wrapper_end_def)

lemma reset_ok:
  "m_read w = int k \<Longrightarrow> (\<forall>i\<in>{1..k}. m_begin w - int i \<noteq> wrapper_end w) \<Longrightarrow>
   reset_to_rollback_point w = Some (no_error, w\<lparr>m_begin := m_begin w - int k, m_read := 0\<rparr>)"
proof (induction k arbitrary: w)
  case 0
  then show ?case by (subst reset_to_rollback_point.simps) simp
next
  case (Suc k)
  let ?w1 = "w\<lparr>m_begin := m_begin w - 1, m_read := m_read w - 1\<rparr>"
  have ne: "m_begin w - 1 \<noteq> wrapper_end w" using Suc.prems(2) by force
  have r: "m_read ?w1 = int k" using Suc.prems(1) by simp
  have "\<forall>i\<in>{1..k}. m_begin ?w1 - int i \<noteq> wrapper_end ?w1"
  proof
    fix i assume "i \<in> {1..k}"
    then have "Suc i \<in> {1..Suc k}" by simp
    then have "m_begin w - int (Suc i) \<noteq> wrapper_end w" using Suc.prems(2) by blast
    then show "m_begin ?w1 - int i \<noteq> wrapper_end ?w1" by (simp add: algebra_simps)
  qed
  from Suc.IH [OF r this] have
    "reset_to_rollback_point ?w1 = Some (no_error, ?w1\<lparr>m_begin := m_begin ?w1 - int k, m_read := 0\<rparr>)" .
  moreover have "m_read w \<noteq> 0" using Suc.prems(1) by simp
  ultimately show ?case using ne
    by (subst reset_to_rollback_point.simps) (simp add: Let_def algebra_simps)
qed

lemma reset_fail:
  "m_read w = int k \<Longrightarrow> (\<exists>i\<in>{1..k}. m_begin w - int i = wrapper_end w) \<Longrightarrow>
   \<exists>w'. reset_to_rollback_point w = Some (mk_error unrecoverable_source_error ''Putback failed'', w')
     \<and> m_begin w' = wrapper_end w \<and> m_range w' = m_range w \<and> 0 < m_read w'"
proof (induction k arbitrary: w)
  case 0
  then show ?case by simp
next
  case (Suc k)
  let ?w1 = "w\<lparr>m_begin := m_begin w - 1, m_read := m_read w - 1\<rparr>"
  have nz: "m_read w \<noteq> 0" using Suc.prems(1) by simp
  show ?case
  proof (cases "m_begin w - 1 = wrapper_end w")
    case True
    then show ?thesis using nz Suc.prems(1)
      by (subst reset_to_rollback_point.simps) (simp add: Let_def)
  next
    case False
    have r: "m_read ?w1 = int k" using Suc.prems(1) by simp
    from Suc.prems(2) obtain i where i: "i \<in> {1..Suc k}" "m_begin w - int i = wrapper_end w" by blast
    with False have "i \<noteq> 1" by auto
    with i have "i - 1 \<in> {1..k}" "m_begin ?w1 - int (i - 1) = wrapper_end ?w1"
      by (auto simp: algebra_simps of_nat_diff)
    then have "\<exists>j\<in>{1..k}. m_begin ?w1 - int j = wrapper_end ?w1" by blast
    from Suc.IH [OF r this] obtain w' where
      "reset_to_rollback_point ?w1 = Some (mk_error unrecoverable_source_error ''Putback failed'', w')"
      "m_begin w' = wrapper_end ?w1" "m_range w' = m_range ?w1" "0 < m_read w'" by blast
    then show ?thesis using nz False
      by (subst reset_to_rollback_point.simps) (simp add: Let_def)
  qed
qed


lemma advance_after_set:
  "\<not> caching (m_range w) \<Longrightarrow>
   advance k (set_rollback_point w) = w\<lparr>m_begin := m_begin w + k, m_read := k\<rparr>"
  by (simp add: advance_def set_rollback_point_def Let_def)

text \<open>For a caching source \<open>advance\<close> moves the counter only, and the reset still steps
  the iterator back once per counted element (for such a source the step back is the
  putback on the source itself, which is outside this model of positions).\<close>

lemma reset_after_advance_caching:
  assumes "caching (m_range w)" and "0 \<le> k"
    and "\<forall>i\<in>{1..nat k}. m_begin w - int i \<noteq> wrapper_end w"
  shows "reset_to_rollback_point (advance k (set_rollback_point w))
           = Some (no_error, w\<lparr>m_begin := m_begin w - k, m_read := 0\<rparr>)"
proof -
  let ?w1 = "w\<lparr>m_read := k\<rparr>"
  have w1: "advance k (set_rollback_point w) = ?w1"
    using assms(1) by (simp add: advance_def set_rollback_point_def Let_def)
  have rd: "m_read ?w1 = int (nat k)" using assms(2) by simp
  have "\<forall>i\<in>{1..nat k}. m_begin ?w1 - int i \<noteq> wrapper_end ?w1" using assms(3) by simp
  from reset_ok [OF rd this] show ?thesis using assms(2) by (simp add: w1)
qed

text \<open>Claim C1. A cursor over a non-caching source that establishes a rollback point and
  is then advanced by \<open>k \<ge> 0\<close> steps: if no backward step lands on the end sentinel,
  \<open>reset_to_rollback_point\<close> returns no error and the cursor is exactly the one at the
  rollback point (same position, counter zero); this is in particular so whenever the
  advanced position is not past the end. If some backward step lands on the end sentinel,
  it returns \<open>unrecoverable_source_error\<close>, stopped at the sentinel.\<close>

theorem reset_to_rollback_point_after_advance:
  assumes nc: "\<not> caching (m_range w)" and k: "0 \<le> k"
  shows "((\<forall>i\<in>{1..nat k}. m_begin w + k - int i \<noteq> wrapper_end w) \<longrightarrow>
            reset_to_rollback_point (advance k (set_rollback_point w))
              = Some (no_error, set_rollback_point w))
       \<and> ((\<exists>i\<in>{1..nat k}. m_begin w + k - int i = wrapper_end w) \<longrightarrow>
            (\<exists>w'. reset_to_rollback_point (advance k (set_rollback_point w))
                     = Some (mk_error unrecoverable_source_error ''Putback failed'', w')
                 \<and> m_begin w' = wrapper_end w))
       \<and> (m_begin w + k \<le> wrapper_end w \<longrightarrow>
            reset_to_rollback_point (advance k (set_rollback_point w))
              = Some (no_error, set_rollback_point w))"
proof -
  let ?w1 = "w\<lparr>m_begin := m_begin w + k, m_read := k\<rparr>"
  have w1: "advance k (set_rollback_point w) = ?w1" using nc by (rule advance_after_set)
  have rd: "m_read ?w1 = int (nat k)" using k by simp
  have ok: "reset_to_rollback_point ?w1 = Some (no_error, set_rollback_point w)"
    if "\<forall>i\<in>{1..nat k}. m_begin w + k - int i \<noteq> wrapper_end w"
  proof -
    from that have "\<forall>i\<in>{1..nat k}. m_begin ?w1 - int i \<noteq> wrapper_end ?w1" by simp
    from reset_ok [OF rd this] show ?thesis using k by (simp add: set_rollback_point_def)
  qed
  have bad: "\<exists>w'. reset_to_rollback_point ?w1
                     = Some (mk_error unrecoverable_source_error ''Putback failed'', w')
                 \<and> m_begin w' = wrapper_end w"
    if "\<exists>i\<in>{1..nat k}. m_begin w + k - int i = wrapper_end w"
  proof -
    from that have "\<exists>i\<in>{1..nat k}. m_begin ?w1 - int i = wrapper_end ?w1" by simp
    from reset_fail [OF rd this] show ?thesis by auto
  qed
  have inb: "\<forall>i\<in>{1..nat k}. m_begin w + k - int i \<noteq> wrapper_end w"
    if "m_begin w + k \<le> wrapper_end w"
    using that by auto
  show ?thesis unfolding w1 using ok bad inb by blast
qed

theorem reset_to_rollback_point_after_advance_witness:
  "reset_to_rollback_point (advance 3 (set_rollback_point (range_wrapper_ctor hello_source)))
     = Some (no_error, set_rollback_point (range_wrapper_ctor hello_source))
   \<and> (\<exists>w'. reset_to_rollback_point (advance 7 (set_rollback_point (range_wrapper_ctor hello_source)))
              = Some (mk_error unrecoverable_source_error ''Putback failed'', w')
          \<and> m_begin w' = 105)"
proof -
  let ?w = "range_wrapper_ctor hello_source"
  have nc: "\<not> caching (m_range ?w)" by (simp add: range_wrapper_ctor_def hello_source_def)
  have e: "wrapper_end ?w = 105" by (simp add: range_wrapper_ctor_def hello_source_def wrapper_end_def)
  have b: "m_begin ?w = 100" by (simp add: range_wrapper_ctor_def hello_source_def)
  have h3: "m_begin ?w + 3 \<le> wrapper_end ?w" by (simp add: e b)
  have "(2::nat) \<in> {1..nat 7}" by simp
  moreover have "m_begin ?w + 7 - int 2 = wrapper_end ?w" by (simp add: e b)
  ultimately have h7: "\<exists>i\<in>{1..nat 7}. m_begin ?w + 7 - int i = wrapper_end ?w" by blast
  show ?thesis
    using reset_to_rollback_point_after_advance [OF nc, of 3] h3
      reset_to_rollback_point_after_advance [OF nc, of 7] h7
    by (simp add: e)
qed

subsection \<open>Copying, moving and rewrapping\<close>

lemma caching_advance_keeps_begin:
  "caching (m_range w) \<Longrightarrow> m_begin (advance n w) = m_begin w"
  by (simp add: advance_def Let_def)

lemma remaining_copy_construct: "remaining (copy_construct nb w) = remaining w"
  by (simp add: remaining_def copy_construct_def relocate_def distance_def begin_underlying_def
      wrapper_begin_def Let_def)

lemma remaining_move_construct: "remaining (fst (move_construct nb w)) = remaining w"
  by (simp add: remaining_def move_construct_def relocate_def distance_def begin_underlying_def
      wrapper_begin_def Let_def)

lemma rewrap_same_eq:
  "rewrap_same nb w =
     \<lparr>m_range = relocate nb (m_range w),
      m_begin = (if caching (m_range w) then nb else nb + (m_begin w - base (m_range w))),
      m_read = 0\<rparr>"
  by (simp add: rewrap_same_def range_wrapper_ctor_def advance_def set_rollback_point_def
      relocate_def distance_def begin_underlying_def wrapper_begin_def Let_def)

lemma remaining_rewrap_same:
  "caching (m_range w) \<longrightarrow> m_begin w = begin_underlying w \<Longrightarrow>
   remaining (rewrap_same nb w) = remaining w"
  by (auto simp add: rewrap_same_eq remaining_def relocate_def distance_def begin_underlying_def
      wrapper_begin_def Let_def)

text \<open>Claim C9. Copying, moving and rewrapping to the same type do not carry the raw
  position over: the offset from the underlying start is computed and re-applied from
  the start of the new storage \<open>nb\<close>, so the offset is preserved and reading the new
  cursor gives the same remaining characters as reading the original. For the rewrap,
  whose re-advance goes through \<open>advance\<close>, this is for cursors whose position is moved
  by \<open>advance\<close> (non-caching sources) or has not left the start (caching sources, see
  \<open>caching_advance_keeps_begin\<close>).\<close>

theorem rewrap_copy_preserve_offset:
  "distance (begin_underlying (copy_construct nb w)) (wrapper_begin (copy_construct nb w))
           = distance (begin_underlying w) (wrapper_begin w)
       \<and> begin_underlying (copy_construct nb w) = nb
       \<and> remaining (copy_construct nb w) = remaining w
       \<and> m_read (copy_construct nb w) = m_read w
       \<and> distance (begin_underlying (fst (move_construct nb w)))
                   (wrapper_begin (fst (move_construct nb w)))
           = distance (begin_underlying w) (wrapper_begin w)
       \<and> begin_underlying (fst (move_construct nb w)) = nb
       \<and> remaining (fst (move_construct nb w)) = remaining w
       \<and> ((caching (m_range w) \<longrightarrow> m_begin w = begin_underlying w) \<longrightarrow>
            distance (begin_underlying (rewrap_same nb w)) (wrapper_begin (rewrap_same nb w))
              = distance (begin_underlying w) (wrapper_begin w)
          \<and> begin_underlying (rewrap_same nb w) = nb
          \<and> remaining (rewrap_same nb w) = remaining w)"
proof -
  have c: "distance (begin_underlying (copy_construct nb w)) (wrapper_begin (copy_construct nb w))
           = distance (begin_underlying w) (wrapper_begin w)"
    "begin_underlying (copy_construct nb w) = nb" "m_read (copy_construct nb w) = m_read w"
    by (simp_all add: copy_construct_def relocate_def distance_def begin_underlying_def
        wrapper_begin_def Let_def)
  have m: "distance (begin_underlying (fst (move_construct nb w)))
                   (wrapper_begin (fst (move_construct nb w)))
           = distance (begin_underlying w) (wrapper_begin w)"
    "begin_underlying (fst (move_construct nb w)) = nb"
    by (simp_all add: move_construct_def relocate_def distance_def begin_underlying_def
        wrapper_begin_def Let_def)
  have r: "distance (begin_underlying (rewrap_same nb w)) (wrapper_begin (rewrap_same nb w))
             = distance (begin_underlying w) (wrapper_begin w)
         \<and> begin_underlying (rewrap_same nb w) = nb
         \<and> remaining (rewrap_same nb w) = remaining w"
    if h: "caching (m_range w) \<longrightarrow> m_begin w = begin_underlying w"
  proof -
    have "distance (begin_underlying (rewrap_same nb w)) (wrapper_begin (rewrap_same nb w))
             = distance (begin_underlying w) (wrapper_begin w)"
      "begin_underlying (rewrap_same nb w) = nb"
      using h
      by (auto simp add: rewrap_same_eq relocate_def distance_def begin_underlying_def
          wrapper_begin_def)
    then show ?thesis using remaining_rewrap_same [OF h, of nb] by simp
  qed
  show ?thesis
    using c m r remaining_copy_construct [of nb w] remaining_move_construct [of nb w]
    by blast
qed

theorem rewrap_copy_preserve_offset_witness:
  "remaining (rewrap_same 7000 (advance 2 (range_wrapper_ctor hello_source))) = Some ''llo''
   \<and> remaining (copy_construct 7000 (advance 2 (range_wrapper_ctor hello_source))) = Some ''llo''
   \<and> remaining (fst (move_construct 7000 (advance 2 (range_wrapper_ctor hello_source)))) = Some ''llo''
   \<and> wrapper_begin (rewrap_same 7000 (advance 2 (range_wrapper_ctor hello_source))) = 7002"
proof -
  let ?w = "advance 2 (range_wrapper_ctor hello_source)"
  have h: "caching (m_range ?w) \<longrightarrow> m_begin ?w = begin_underlying ?w"
    by (simp add: advance_def range_wrapper_ctor_def hello_source_def Let_def)
  have r: "remaining ?w = Some ''llo''"
    by (simp add: remaining_def advance_def range_wrapper_ctor_def hello_source_def Let_def
        distance_def begin_underlying_def wrapper_begin_def)
  have d: "distance (begin_underlying ?w) (wrapper_begin ?w) = 2"
    by (simp add: advance_def range_wrapper_ctor_def hello_source_def Let_def
        distance_def begin_underlying_def wrapper_begin_def)
  show ?thesis
    using rewrap_copy_preserve_offset [of 7000 ?w] h r d
    by (simp add: distance_def)
qed

subsection \<open>Classification of failed number reads\<close>

lemma pow_len: "(2::int) ^ LENGTH('a::len) = 2 * 2 ^ (LENGTH('a) - 1)"
  by (metis len_gt_0 power_eq_if less_numeral_extra(3))

lemma sint_max: "sint (numeric_limits_max True :: 'a::len word) = 2 ^ (LENGTH('a) - 1) - 1"
proof -
  let ?h = "(2::int) ^ (LENGTH('a) - 1)"
  have "sint (word_of_int (?h - 1) :: 'a word) = (?h - 1 + ?h) mod 2 ^ LENGTH('a) - ?h"
    by (rule int_word_sint)
  also have "?h - 1 + ?h = 2 ^ LENGTH('a) - 1"
    using pow_len [where 'a='a] by linarith
  also have "((2::int) ^ LENGTH('a) - 1) mod 2 ^ LENGTH('a) = 2 ^ LENGTH('a) - 1"
    by (rule mod_pos_pos_trivial) simp_all
  also have "(2::int) ^ LENGTH('a) - 1 - ?h = ?h - 1"
    using pow_len [where 'a='a] by linarith
  finally show ?thesis unfolding numeric_limits_max_def by (simp only: if_True)
qed

lemma sint_min: "sint (numeric_limits_min True :: 'a::len word) = - (2 ^ (LENGTH('a) - 1))"
proof -
  let ?h = "(2::int) ^ (LENGTH('a) - 1)"
  have "sint (word_of_int (- ?h) :: 'a word) = (- ?h + ?h) mod 2 ^ LENGTH('a) - ?h"
    by (rule int_word_sint)
  also have "\<dots> = - ?h" by simp
  finally show ?thesis unfolding numeric_limits_min_def by (simp only: if_True)
qed

lemma unat_max: "unat (numeric_limits_max False :: 'a::len word) = 2 ^ LENGTH('a) - 1"
  by (simp add: numeric_limits_max_def unsigned_minus_1_eq_mask mask_eq_exp_minus_1)

lemma unat_min: "unat (numeric_limits_min False :: 'a::len word) = 0"
  by (simp add: numeric_limits_min_def)

lemma sint_eq_iff: "(a :: 'a::len word) = b \<longleftrightarrow> sint a = sint b"
  by (auto intro: signed_word_eqI)


lemma check_range_signed:
  "read_num_check_range_int True (tmp :: 'a::len word) =
     (if sint tmp = 2 ^ (LENGTH('a) - 1) - 1
      then mk_error value_out_of_range ''Scanned number out of range: overflow''
      else if sint tmp = - (2 ^ (LENGTH('a) - 1))
      then mk_error value_out_of_range ''Scanned number out of range: underflow''
      else mk_error invalid_scanned_value ''Localized number read failed'')"
  unfolding read_num_check_range_int_def
    sint_eq_iff [of tmp "numeric_limits_max True"] sint_eq_iff [of tmp "numeric_limits_min True"]
    sint_max sint_min
  by (rule refl)

lemma check_range_unsigned:
  "read_num_check_range_int False (tmp :: 'a::len word) =
     (if unat tmp = 2 ^ LENGTH('a) - 1
      then mk_error value_out_of_range ''Scanned number out of range: overflow''
      else if unat tmp = 0
      then mk_error value_out_of_range ''Scanned number out of range: underflow''
      else mk_error invalid_scanned_value ''Localized number read failed'')"
  unfolding read_num_check_range_int_def
    word_unat_eq_iff [of tmp "numeric_limits_max False"]
    word_unat_eq_iff [of tmp "numeric_limits_min False"]
    unat_max unat_min
  by (rule refl)

lemma check_range_float:
  "read_num_check_range_float mx ftmp =
     (if ftmp = fp_fin mx \<or> ftmp = fp_fin (- mx)
      then mk_error value_out_of_range ''Scanned number out of range: overflow''
      else if ftmp = fp_fin 0
      then mk_error value_out_of_range ''Scanned number out of range: underflow''
      else mk_error invalid_scanned_value ''Localized number read failed'')"
  by (cases ftmp) (simp_all add: read_num_check_range_float_def)

lemma do_read_num_fail:
  "do_read_num True chk (extracted False True eof tmp pos) val n = (Inl (chk tmp), val)"
  by (simp add: do_read_num_def)

text \<open>Claim C2. When the stream extraction fails (the fail flag is set, the stream is not
  bad and nothing was thrown), \<open>do_read_num\<close> returns the classification of the value the
  stream left in \<open>tmp\<close> and does not touch the output. For a signed integer type the
  classification is \<open>value_out_of_range\<close> with the overflow message when \<open>tmp\<close> is the
  largest value of the type, \<open>value_out_of_range\<close> with the underflow message when it is
  the smallest, and \<open>invalid_scanned_value\<close> otherwise; for an unsigned type the smallest
  value is zero. For a floating-point type, plus or minus the largest finite value gives
  overflow, zero gives underflow, anything else (infinities and not-a-number included)
  gives \<open>invalid_scanned_value\<close>.\<close>

theorem read_num_failure_classification:
  fixes tmp val :: "'a::len word"
  shows "do_read_num True (read_num_check_range_int is_sg) (extracted False True eof tmp pos) val n
           = (Inl (read_num_check_range_int is_sg tmp), val)
    \<and> read_num_check_range_int True tmp =
         (if sint tmp = 2 ^ (LENGTH('a) - 1) - 1
          then mk_error value_out_of_range ''Scanned number out of range: overflow''
          else if sint tmp = - (2 ^ (LENGTH('a) - 1))
          then mk_error value_out_of_range ''Scanned number out of range: underflow''
          else mk_error invalid_scanned_value ''Localized number read failed'')
    \<and> read_num_check_range_int False tmp =
         (if unat tmp = 2 ^ LENGTH('a) - 1
          then mk_error value_out_of_range ''Scanned number out of range: overflow''
          else if unat tmp = 0
          then mk_error value_out_of_range ''Scanned number out of range: underflow''
          else mk_error invalid_scanned_value ''Localized number read failed'')
    \<and> do_read_num True (read_num_check_range_float mx) (extracted False True eof ftmp pos) fval n
           = (Inl (read_num_check_range_float mx ftmp), fval)
    \<and> read_num_check_range_float mx ftmp =
         (if ftmp = fp_fin mx \<or> ftmp = fp_fin (- mx)
          then mk_error value_out_of_range ''Scanned number out of range: overflow''
          else if ftmp = fp_fin 0
          then mk_error value_out_of_range ''Scanned number out of range: underflow''
          else mk_error invalid_scanned_value ''Localized number read failed'')"
  using check_range_signed [of tmp] check_range_unsigned [of tmp] check_range_float [of mx ftmp]
    do_read_num_fail [of "read_num_check_range_int is_sg" eof tmp pos val n]
    do_read_num_fail [of "read_num_check_range_float mx" eof ftmp pos fval n]
  by (simp only: simp_thms)

theorem read_num_failure_classification_witness:
  "do_read_num True (read_num_check_range_int True) (extracted False True True (0x7FFFFFFF :: 32 word) 0) 0 10
     = (Inl (mk_error value_out_of_range ''Scanned number out of range: overflow''), 0)
   \<and> do_read_num True (read_num_check_range_int True) (extracted False True True (0x80000000 :: 32 word) 0) 0 11
     = (Inl (mk_error value_out_of_range ''Scanned number out of range: underflow''), 0)
   \<and> do_read_num True (read_num_check_range_int True) (extracted False True False (0 :: 32 word) 0) 7 3
     = (Inl (mk_error invalid_scanned_value ''Localized number read failed''), 7)
   \<and> do_read_num True (read_num_check_range_int False) (extracted False True False (0 :: 32 word) 0) 7 3
     = (Inl (mk_error value_out_of_range ''Scanned number out of range: underflow''), 7)
   \<and> do_read_num True (read_num_check_range_float 1000) (extracted False True True (fp_fin (- 1000)) 0) (fp_fin 1) 10
     = (Inl (mk_error value_out_of_range ''Scanned number out of range: overflow''), fp_fin 1)
   \<and> do_read_num True (read_num_check_range_float 1000) (extracted False True True (fp_inf False) 0) (fp_fin 1) 11
     = (Inl (mk_error invalid_scanned_value ''Localized number read failed''), fp_fin 1)"
  using read_num_failure_classification [where is_sg = True and eof = True and tmp = "0x7FFFFFFF :: 32 word"
        and pos = 0 and val = 0 and n = 10 and mx = 1000 and ftmp = "fp_fin (- 1000)" and fval = "fp_fin 1"]
    read_num_failure_classification [where is_sg = True and eof = True and tmp = "0x80000000 :: 32 word"
        and pos = 0 and val = 0 and n = 11 and mx = 1000 and ftmp = "fp_inf False" and fval = "fp_fin 1"]
    read_num_failure_classification [where is_sg = True and eof = False and tmp = "0 :: 32 word"
        and pos = 0 and val = 7 and n = 3 and mx = 1000 and ftmp = "fp_fin 0" and fval = "fp_fin 1"]
    read_num_failure_classification [where is_sg = False and eof = False and tmp = "0 :: 32 word"
        and pos = 0 and val = 7 and n = 3 and mx = 1000 and ftmp = "fp_fin 0" and fval = "fp_fin 1"]
  by (simp add: mk_error_def)

subsection \<open>Classification when decoding fails\<close>

lemma convert_to_wide_impl_failure:
  "cv_result (facet_in ch) \<noteq> cv_ok \<Longrightarrow>
   convert_to_wide_impl False facet_in ch = Some (Inl (mk_error invalid_encoding ''Invalid encoding''))"
  by (simp add: convert_to_wide_impl_def Let_def)

lemma convert_to_wide_impl_checked_failure:
  "cv_result (facet_in ch) \<noteq> cv_ok \<Longrightarrow>
   convert_to_wide_impl True facet_in ch = None \<or>
   convert_to_wide_impl True facet_in ch = Some (Inl (mk_error invalid_encoding ''Invalid encoding''))"
  by (simp add: convert_to_wide_impl_def Let_def)

text \<open>Claim C7 (as it is in the sources). When decoding a narrow span to one wide unit
  fails, \<open>convert_to_wide_impl\<close> yields \<open>invalid_encoding\<close>, but the classification
  predicate, whose result is a truth value, does not pass it on: it answers \<open>False\<close>
  (no match). With the contract macros compiled in it answers \<open>False\<close> or stops on a
  violated contract; it never yields an error value.\<close>

theorem is_ctype_span_decoding_failure:
  assumes "cv_result (facet_in ch) \<noteq> cv_ok"
  shows "convert_to_wide_impl False facet_in ch
           = Some (Inl (mk_error invalid_encoding ''Invalid encoding''))
       \<and> is_ctype_span_char False facet_in std_is ch = Some False
       \<and> (is_ctype_span_char True facet_in std_is ch = Some False
          \<or> is_ctype_span_char True facet_in std_is ch = None)"
  using assms convert_to_wide_impl_failure [of facet_in ch] convert_to_wide_impl_checked_failure [of facet_in ch]
  by (auto simp add: is_ctype_span_char_def)

theorem is_ctype_span_decoding_failure_witness:
  "convert_to_wide_impl False ascii_facet_in [0xFF]
           = Some (Inl (mk_error invalid_encoding ''Invalid encoding''))
   \<and> is_ctype_span_char False ascii_facet_in wide_is_space [0xFF] = Some False"
proof -
  have "cv_result (ascii_facet_in [0xFF]) \<noteq> cv_ok" by (simp add: ascii_facet_in_def)
  then show ?thesis
    using is_ctype_span_decoding_failure [of ascii_facet_in "[0xFF]" wide_is_space] by simp
qed

text \<open>Claim C7 as stated fails: on the undecodable byte \<open>0xFF\<close> the predicate reports
  "not a match" and no error.\<close>

theorem is_ctype_span_fail_closed_counterexample:
  "cv_result (ascii_facet_in [0xFF]) \<noteq> cv_ok
   \<and> is_ctype_span_char False ascii_facet_in wide_is_space [0xFF] = Some False"
  by (simp add: ascii_facet_in_def is_ctype_span_char_def convert_to_wide_impl_def Let_def)

subsection \<open>The scan_list loop\<close>

lemma push_back_Some:
  "c_size c < max_size c \<Longrightarrow> push_back v c = Some (c\<lparr>elems := elems c @ [v]\<rparr>)"
  by (simp add: push_back_def)

lemma push_back_SomeD:
  "push_back v c = Some c1 \<Longrightarrow>
   c1 = c\<lparr>elems := elems c @ [v]\<rparr> \<and> c_size c < max_size c \<and> c_size c1 \<le> max_size c1"
  by (auto simp: push_back_def c_size_def split: if_splits)

lemma scan_list_loop_full:
  "c_size c = max_size c \<Longrightarrow> scan_list_loop scan_one rd separator ctx c = Some (no_error, ctx, c)"
  by (simp add: scan_list_loop.simps)

lemma scan_list_loop_value_eor:
  "c_size c \<noteq> max_size c \<Longrightarrow> scan_one ctx = (e, v, ctx1) \<Longrightarrow> code e = end_of_range \<Longrightarrow>
   scan_list_loop scan_one rd separator ctx c = Some (no_error, ctx1, c)"
  by (simp add: scan_list_loop.simps is_good_def)

lemma scan_list_loop_sep_eor:
  "c_size c < max_size c \<Longrightarrow> scan_one ctx = (e, v, ctx1) \<Longrightarrow> is_good e \<Longrightarrow>
   rd ctx1 = (Inl e2, ctx2) \<Longrightarrow> code e2 = end_of_range \<Longrightarrow>
   scan_list_loop scan_one rd (Some sep) ctx c = Some (no_error, ctx2, c\<lparr>elems := elems c @ [v]\<rparr>)"
  by (simp add: scan_list_loop.simps push_back_Some)

lemma scan_list_loop_sep_other:
  "c_size c < max_size c \<Longrightarrow> scan_one ctx = (e, v, ctx1) \<Longrightarrow> is_good e \<Longrightarrow>
   rd ctx1 = (Inr ch, ctx2) \<Longrightarrow> ch \<noteq> sep \<Longrightarrow>
   scan_list_loop scan_one rd (Some sep) ctx c = Some (no_error, ctx2, c\<lparr>elems := elems c @ [v]\<rparr>)"
  by (simp add: scan_list_loop.simps push_back_Some)

lemma scan_list_loop_total:
  "c_size c \<le> max_size c \<Longrightarrow>
   \<exists>e ctx' c'. scan_list_loop scan_one rd separator ctx c = Some (e, ctx', c')
      \<and> (\<exists>ys. elems c' = elems c @ ys) \<and> max_size c' = max_size c \<and> c_size c' \<le> max_size c'"
proof (induction scan_one rd separator ctx c rule: scan_list_loop.induct)
  case (1 scan_one rd separator ctx c)
  note unf = scan_list_loop.simps [of scan_one rd _ ctx c]
  show ?case
  proof (cases "c_size c = max_size c")
    case True
    then show ?thesis by (simp add: unf)
  next
    case False
    with "1.prems" have lt: "c_size c < max_size c" by simp
    obtain err v ctx1 where vs: "scan_one ctx = (err, v, ctx1)" by (cases "scan_one ctx") auto
    let ?c1 = "c\<lparr>elems := elems c @ [v]\<rparr>"
    have pb: "push_back v c = Some ?c1" using lt by (rule push_back_Some)
    have c1: "c_size ?c1 \<le> max_size ?c1" using lt by (simp add: c_size_def)
    show ?thesis
    proof (cases "is_good err")
      case False
      then show ?thesis using \<open>c_size c \<noteq> max_size c\<close> vs "1.prems" by (simp add: unf)
    next
      case good: True
      show ?thesis
      proof (cases separator)
        case None
        from "1.IH"(1) [OF False vs [symmetric] refl _ pb None c1] good
        obtain e ctx' c' where
          "scan_list_loop scan_one rd separator ctx1 ?c1 = Some (e, ctx', c')"
          "\<exists>ys. elems c' = elems ?c1 @ ys" "max_size c' = max_size ?c1" "c_size c' \<le> max_size c'"
          by auto
        then show ?thesis using False vs good pb None by (auto simp: unf)
      next
        case (Some sep)
        obtain x ctx2 where r: "rd ctx1 = (x, ctx2)" by (cases "rd ctx1") auto
        show ?thesis
        proof (cases x)
          case (Inl e2)
          then show ?thesis using False vs good pb Some r c1 by (auto simp: unf)
        next
          case (Inr ch)
          show ?thesis
          proof (cases "ch = sep")
            case False
            then show ?thesis using \<open>c_size c \<noteq> max_size c\<close> vs good pb Some r Inr c1 by (auto simp: unf)
          next
            case True
            from "1.IH"(2) [OF \<open>c_size c \<noteq> max_size c\<close> vs [symmetric] refl _ pb Some
                r [symmetric] Inr True c1] good
            obtain e ctx' c' where
              "scan_list_loop scan_one rd separator ctx2 ?c1 = Some (e, ctx', c')"
              "\<exists>ys. elems c' = elems ?c1 @ ys" "max_size c' = max_size ?c1" "c_size c' \<le> max_size c'"
              by auto
            then show ?thesis using \<open>c_size c \<noteq> max_size c\<close> vs good pb Some r Inr True by (auto simp: unf)
          qed
        qed
      qed
    qed
  qed
qed


lemma no_error_good [simp]: "is_good no_error" "code no_error = good"
  by (simp_all add: is_good_def no_error_def)

lemma scan_list_loop_error:
  "scan_list_loop scan_one rd separator ctx c = Some (e, ctx', c') \<Longrightarrow> \<not> is_good e \<Longrightarrow>
   code e \<noteq> end_of_range \<and> ((\<exists>x. fst (scan_one x) = e) \<or> (\<exists>x. fst (rd x) = Inl e))"
proof (induction scan_one rd separator ctx c rule: scan_list_loop.induct)
  case (1 scan_one rd separator ctx c)
  note unf = scan_list_loop.simps [of scan_one rd _ ctx c]
  show ?case
  proof (cases "c_size c = max_size c")
    case True
    with "1.prems" show ?thesis by (simp add: unf)
  next
    case False
    obtain err v ctx1 where vs: "scan_one ctx = (err, v, ctx1)" by (cases "scan_one ctx") auto
    show ?thesis
    proof (cases "is_good err")
      case False
      have "\<exists>x. fst (scan_one x) = err" using vs by (metis fst_conv)
      then show ?thesis using \<open>c_size c \<noteq> max_size c\<close> vs "1.prems" False
        by (auto simp: unf split: if_splits)
    next
      case good: True
      from "1.prems"(1) False vs good obtain c1 where pb: "push_back v c = Some c1"
        by (cases "push_back v c") (auto simp: unf)
      show ?thesis
      proof (cases separator)
        case None
        have "scan_list_loop scan_one rd separator ctx1 c1 = Some (e, ctx', c')"
          using "1.prems"(1) False vs good pb None by (simp add: unf)
        from "1.IH"(1) [OF False vs [symmetric] refl _ pb None this "1.prems"(2)] good
        show ?thesis by simp
      next
        case (Some sep)
        obtain x ctx2 where r: "rd ctx1 = (x, ctx2)" by (cases "rd ctx1") auto
        show ?thesis
        proof (cases x)
          case (Inl e2)
          have "\<exists>x. fst (rd x) = Inl e2" using r Inl by (metis fst_conv)
          then show ?thesis using "1.prems" False vs good pb Some r Inl
            by (auto simp: unf split: if_splits)
        next
          case (Inr ch)
          show ?thesis
          proof (cases "ch = sep")
            case False
            then show ?thesis using "1.prems" \<open>c_size c \<noteq> max_size c\<close> vs good pb Some r Inr
              by (simp add: unf)
          next
            case True
            have "scan_list_loop scan_one rd separator ctx2 c1 = Some (e, ctx', c')"
              using "1.prems"(1) \<open>c_size c \<noteq> max_size c\<close> vs good pb Some r Inr True
              by (simp add: unf)
            from "1.IH"(2) [OF \<open>c_size c \<noteq> max_size c\<close> vs [symmetric] refl _ pb Some
                r [symmetric] Inr True this "1.prems"(2)] good
            show ?thesis by simp
          qed
        qed
      qed
    qed
  qed
qed

lemma wrap_result_error:
  "wrap_result e tag nb w = Some (e', w') \<Longrightarrow> e' = e"
  by (auto simp: wrap_result_def split: result_case.splits option.splits)

lemma scan_list_result:
  assumes "scan_list scan_one nb tag r c separator = Some ((e, w), c')"
  shows "\<exists>ctx1. scan_list_loop scan_one read_char separator (wrap nb r) c = Some (e, ctx1, c')
        \<and> wrap_result e tag nb ctx1 = Some (e, w)"
proof -
  from assms obtain err ctx1 where
    l: "scan_list_loop scan_one read_char separator (wrap nb r) c = Some (err, ctx1, c')"
    and w: "wrap_result err tag nb ctx1 = Some (e, w)"
    by (auto simp: scan_list_def Let_def split: option.splits)
  from w have "e = err" by (rule wrap_result_error)
  with l w show ?thesis by simp
qed


lemma scan_list_loop_continue_none:
  "c_size c < max_size c \<Longrightarrow> scan_one ctx = (e, v, ctxa) \<Longrightarrow> is_good e \<Longrightarrow>
   scan_list_loop scan_one rd None ctx c
     = scan_list_loop scan_one rd None ctxa (c\<lparr>elems := elems c @ [v]\<rparr>)"
  by (subst scan_list_loop.simps) (simp add: push_back_Some)

lemma scan_list_loop_continue_sep:
  "c_size c < max_size c \<Longrightarrow> scan_one ctx = (e, v, ctxa) \<Longrightarrow> is_good e \<Longrightarrow>
   rd ctxa = (Inr sep, ctxb) \<Longrightarrow>
   scan_list_loop scan_one rd (Some sep) ctx c
     = scan_list_loop scan_one rd (Some sep) ctxb (c\<lparr>elems := elems c @ [v]\<rparr>)"
  by (subst scan_list_loop.simps) (simp add: push_back_Some)

lemma scan_list_loop_value_error:
  "c_size c < max_size c \<Longrightarrow> scan_one ctx = (e, v, ctxa) \<Longrightarrow> \<not> is_good e \<Longrightarrow>
   code e \<noteq> end_of_range \<Longrightarrow>
   scan_list_loop scan_one rd separator ctx c = Some (e, ctxa, c)"
  by (subst scan_list_loop.simps) simp

lemma scan_list_loop_sep_error:
  "c_size c < max_size c \<Longrightarrow> scan_one ctx = (e, v, ctxa) \<Longrightarrow> is_good e \<Longrightarrow>
   rd ctxa = (Inl es, ctxb) \<Longrightarrow> code es \<noteq> end_of_range \<Longrightarrow>
   scan_list_loop scan_one rd (Some sep) ctx c
     = Some (es, ctxb, c\<lparr>elems := elems c @ [v]\<rparr>)"
  by (subst scan_list_loop.simps) (simp add: push_back_Some)

lemma wrap_result_no_reconstruct:
  assumes "\<forall>a b. tag \<noteq> rvalue_nonref_other a b"
  shows "wrap_result e tag nb w \<noteq> None"
proof (cases tag)
  case (rvalue_nonref_other a b)
  with assms show ?thesis by blast
qed (simp_all add: wrap_result_def)

lemma scan_list_from_loop:
  assumes l: "scan_list_loop scan_one read_char separator (wrap nb r) cin = Some (e, ctxf, cf)"
    and d: "wrap_result e tag nb ctxf \<noteq> None"
  shows "\<exists>w. wrap_result e tag nb ctxf = Some (e, w)
           \<and> scan_list scan_one nb tag r cin separator = Some ((e, w), cf)"
proof -
  from d obtain e2 w where w: "wrap_result e tag nb ctxf = Some (e2, w)" by auto
  then have "e2 = e" by (rule wrap_result_error)
  with w have w': "wrap_result e tag nb ctxf = Some (e, w)" by simp
  then have "scan_list scan_one nb tag r cin separator = Some ((e, w), cf)"
    using l by (simp add: scan_list_def Let_def)
  with w' show ?thesis by blast
qed

lemma scan_list_total:
  fixes scan_one :: "'c range_wrapper \<Rightarrow> error \<times> 'v \<times> 'c range_wrapper"
  assumes c: "c_size cin \<le> max_size cin" and t: "\<forall>a b. tag \<noteq> rvalue_nonref_other a b"
  shows "\<exists>ef w cf. scan_list scan_one nb tag r cin separator = Some ((ef, w), cf)
      \<and> (\<exists>ys. elems cf = elems cin @ ys)
      \<and> (\<not> is_good ef \<longrightarrow> code ef \<noteq> end_of_range
            \<and> ((\<exists>x. fst (scan_one x) = ef) \<or> (\<exists>x. fst (read_char x) = (Inl ef :: error + 'c))))"
proof -
  from scan_list_loop_total [OF c, of scan_one read_char separator "wrap nb r"]
  obtain ef ctxf cf where
    l: "scan_list_loop scan_one read_char separator (wrap nb r) cin = Some (ef, ctxf, cf)"
    and p: "\<exists>ys. elems cf = elems cin @ ys" by blast
  from scan_list_from_loop [OF l wrap_result_no_reconstruct [OF t]] obtain w where
    "scan_list scan_one nb tag r cin separator = Some ((ef, w), cf)" by blast
  moreover have "\<not> is_good ef \<longrightarrow> code ef \<noteq> end_of_range
            \<and> ((\<exists>x. fst (scan_one x) = ef) \<or> (\<exists>x. fst (read_char x) = (Inl ef :: error + 'c)))"
    by (intro impI) (rule scan_list_loop_error [OF l])
  ultimately show ?thesis using p by blast
qed

lemma scan_list_stop:
  assumes "scan_list_loop scan_one read_char separator (wrap nb r) cin
             = scan_list_loop scan_one read_char separator ctx c"
    and "scan_list_loop scan_one read_char separator ctx c = Some (no_error, ctxf, cf)"
    and "wrap_result no_error tag nb ctxf \<noteq> None"
  shows "\<exists>w. wrap_result no_error tag nb ctxf = Some (no_error, w)
           \<and> scan_list scan_one nb tag r cin separator = Some ((no_error, w), cf)"
  using scan_list_from_loop [of scan_one separator nb r cin no_error ctxf cf tag] assms by simp

lemmas cursor_eval = read_char_def remaining_def distance_def begin_underlying_def
  wrapper_begin_def advance_def Let_def range_wrapper_ctor_def

text \<open>Claim C3. The loop of \<open>scan_list\<close>, at any state (the container holding what has
  been collected so far): it ends with no error and keeps the collected elements when the
  container is full, when scanning the next value gives \<open>end_of_range\<close>, when reading the
  separator gives \<open>end_of_range\<close>, and when the character after an element is not the
  separator (the element just scanned is kept too); it goes on with the next element
  after a value without separator or after a value and its separator; any other error of
  the value scan or of the separator read is returned. From a container within its
  capacity the loop always returns, with the elements it started from as a prefix of the
  result, and an error in the result is never \<open>end_of_range\<close>.

  The call \<open>scan_list\<close>: its result is the result of the loop started on the wrapped
  input, with the cursor handed to \<open>wrap_result\<close> (which is defined unless another range
  type has to be reconstructed from a cursor outside its source). So the call returns,
  with the elements of the container it was given as a prefix of the result. And when
  the loop of the call is at a state in one of the three cases (a state from which the
  loop gives the result of the whole call; the start of the call is such a state), the
  call returns no error and the container of that state, with the element just scanned
  where there is one.\<close>

theorem scan_list_stops_successfully:
  fixes scan_one :: "'c range_wrapper \<Rightarrow> error \<times> 'v \<times> 'c range_wrapper"
  shows "(c_size c = max_size c \<longrightarrow>
      scan_list_loop scan_one rd separator ctx c = Some (no_error, ctx, c))
   \<and> (c_size c < max_size c \<and> scan_one ctx = (e, v, ctxa) \<and> code e = end_of_range \<longrightarrow>
      scan_list_loop scan_one rd separator ctx c = Some (no_error, ctxa, c))
   \<and> (c_size c < max_size c \<and> scan_one ctx = (e, v, ctxa) \<and> is_good e
        \<and> rd ctxa = (Inl es, ctxb) \<and> code es = end_of_range \<longrightarrow>
      scan_list_loop scan_one rd (Some sep) ctx c
        = Some (no_error, ctxb, c\<lparr>elems := elems c @ [v]\<rparr>))
   \<and> (c_size c < max_size c \<and> scan_one ctx = (e, v, ctxa) \<and> is_good e
        \<and> rd ctxa = (Inr ch, ctxb) \<and> ch \<noteq> sep \<longrightarrow>
      scan_list_loop scan_one rd (Some sep) ctx c
        = Some (no_error, ctxb, c\<lparr>elems := elems c @ [v]\<rparr>))
   \<and> (c_size c \<le> max_size c \<longrightarrow>
        (\<exists>e' ctx' c'. scan_list_loop scan_one rd separator ctx c = Some (e', ctx', c')
           \<and> (\<exists>ys. elems c' = elems c @ ys)))
   \<and> (scan_list_loop scan_one rd separator ctx c = Some (e', ctx', c') \<and> \<not> is_good e' \<longrightarrow>
        code e' \<noteq> end_of_range
        \<and> ((\<exists>x. fst (scan_one x) = e') \<or> (\<exists>x. fst (rd x) = Inl e')))
   \<and> (c_size c < max_size c \<and> scan_one ctx = (e, v, ctxa) \<and> is_good e \<longrightarrow>
      scan_list_loop scan_one rd None ctx c
        = scan_list_loop scan_one rd None ctxa (c\<lparr>elems := elems c @ [v]\<rparr>))
   \<and> (c_size c < max_size c \<and> scan_one ctx = (e, v, ctxa) \<and> is_good e
        \<and> rd ctxa = (Inr sep, ctxb) \<longrightarrow>
      scan_list_loop scan_one rd (Some sep) ctx c
        = scan_list_loop scan_one rd (Some sep) ctxb (c\<lparr>elems := elems c @ [v]\<rparr>))
   \<and> (c_size c < max_size c \<and> scan_one ctx = (e, v, ctxa) \<and> \<not> is_good e
        \<and> code e \<noteq> end_of_range \<longrightarrow>
      scan_list_loop scan_one rd separator ctx c = Some (e, ctxa, c))
   \<and> (c_size c < max_size c \<and> scan_one ctx = (e, v, ctxa) \<and> is_good e
        \<and> rd ctxa = (Inl es, ctxb) \<and> code es \<noteq> end_of_range \<longrightarrow>
      scan_list_loop scan_one rd (Some sep) ctx c
        = Some (es, ctxb, c\<lparr>elems := elems c @ [v]\<rparr>))
   \<and> (scan_list_loop scan_one read_char separator (wrap nb r) cin = Some (e', ctx', c')
        \<and> wrap_result e' tag nb ctx' \<noteq> None \<longrightarrow>
        (\<exists>w. wrap_result e' tag nb ctx' = Some (e', w)
           \<and> scan_list scan_one nb tag r cin separator = Some ((e', w), c')))
   \<and> (c_size cin \<le> max_size cin \<and> (\<forall>a b. tag \<noteq> rvalue_nonref_other a b) \<longrightarrow>
        (\<exists>ef w cf. scan_list scan_one nb tag r cin separator = Some ((ef, w), cf)
           \<and> (\<exists>ys. elems cf = elems cin @ ys)
           \<and> (\<not> is_good ef \<longrightarrow> code ef \<noteq> end_of_range
                 \<and> ((\<exists>x. fst (scan_one x) = ef) \<or> (\<exists>x. fst (read_char x) = (Inl ef :: error + 'c))))))
   \<and> (scan_list_loop scan_one read_char separator (wrap nb r) cin
          = scan_list_loop scan_one read_char separator ctx c
        \<and> c_size c = max_size c \<and> wrap_result no_error tag nb ctx \<noteq> None \<longrightarrow>
        (\<exists>w. wrap_result no_error tag nb ctx = Some (no_error, w)
           \<and> scan_list scan_one nb tag r cin separator = Some ((no_error, w), c)))
   \<and> (scan_list_loop scan_one read_char separator (wrap nb r) cin
          = scan_list_loop scan_one read_char separator ctx c
        \<and> c_size c < max_size c \<and> scan_one ctx = (e, v, ctxa) \<and> code e = end_of_range
        \<and> wrap_result no_error tag nb ctxa \<noteq> None \<longrightarrow>
        (\<exists>w. wrap_result no_error tag nb ctxa = Some (no_error, w)
           \<and> scan_list scan_one nb tag r cin separator = Some ((no_error, w), c)))
   \<and> (scan_list_loop scan_one read_char (Some sep) (wrap nb r) cin
          = scan_list_loop scan_one read_char (Some sep) ctx c
        \<and> c_size c < max_size c \<and> scan_one ctx = (e, v, ctxa) \<and> is_good e
        \<and> read_char ctxa = (Inl es, ctxb) \<and> code es = end_of_range
        \<and> wrap_result no_error tag nb ctxb \<noteq> None \<longrightarrow>
        (\<exists>w. wrap_result no_error tag nb ctxb = Some (no_error, w)
           \<and> scan_list scan_one nb tag r cin (Some sep)
               = Some ((no_error, w), c\<lparr>elems := elems c @ [v]\<rparr>)))
   \<and> (scan_list_loop scan_one read_char (Some sep) (wrap nb r) cin
          = scan_list_loop scan_one read_char (Some sep) ctx c
        \<and> c_size c < max_size c \<and> scan_one ctx = (e, v, ctxa) \<and> is_good e
        \<and> read_char ctxa = (Inr ch, ctxb) \<and> ch \<noteq> sep
        \<and> wrap_result no_error tag nb ctxb \<noteq> None \<longrightarrow>
        (\<exists>w. wrap_result no_error tag nb ctxb = Some (no_error, w)
           \<and> scan_list scan_one nb tag r cin (Some sep)
               = Some ((no_error, w), c\<lparr>elems := elems c @ [v]\<rparr>)))"
proof -
  have 1: "c_size c = max_size c \<longrightarrow>
      scan_list_loop scan_one rd separator ctx c = Some (no_error, ctx, c)"
    by (simp add: scan_list_loop_full)
  have 2: "c_size c < max_size c \<and> scan_one ctx = (e, v, ctxa) \<and> code e = end_of_range \<longrightarrow>
      scan_list_loop scan_one rd separator ctx c = Some (no_error, ctxa, c)"
    using scan_list_loop_value_eor [of c scan_one ctx e v ctxa rd separator] by simp
  have 3: "c_size c < max_size c \<and> scan_one ctx = (e, v, ctxa) \<and> is_good e
        \<and> rd ctxa = (Inl es, ctxb) \<and> code es = end_of_range \<longrightarrow>
      scan_list_loop scan_one rd (Some sep) ctx c
        = Some (no_error, ctxb, c\<lparr>elems := elems c @ [v]\<rparr>)"
    using scan_list_loop_sep_eor [of c scan_one ctx e v ctxa rd es ctxb sep] by simp
  have 4: "c_size c < max_size c \<and> scan_one ctx = (e, v, ctxa) \<and> is_good e
        \<and> rd ctxa = (Inr ch, ctxb) \<and> ch \<noteq> sep \<longrightarrow>
      scan_list_loop scan_one rd (Some sep) ctx c
        = Some (no_error, ctxb, c\<lparr>elems := elems c @ [v]\<rparr>)"
    using scan_list_loop_sep_other [of c scan_one ctx e v ctxa rd ch ctxb sep] by simp
  have 5: "c_size c \<le> max_size c \<longrightarrow>
        (\<exists>e' ctx' c'. scan_list_loop scan_one rd separator ctx c = Some (e', ctx', c')
           \<and> (\<exists>ys. elems c' = elems c @ ys))"
    using scan_list_loop_total [of c scan_one rd separator ctx] by blast
  have 6: "scan_list_loop scan_one rd separator ctx c = Some (e', ctx', c') \<and> \<not> is_good e' \<longrightarrow>
        code e' \<noteq> end_of_range
        \<and> ((\<exists>x. fst (scan_one x) = e') \<or> (\<exists>x. fst (rd x) = Inl e'))"
    using scan_list_loop_error [of scan_one rd separator ctx c e' ctx' c'] by blast
  have 7: "c_size c < max_size c \<and> scan_one ctx = (e, v, ctxa) \<and> is_good e \<longrightarrow>
      scan_list_loop scan_one rd None ctx c
        = scan_list_loop scan_one rd None ctxa (c\<lparr>elems := elems c @ [v]\<rparr>)"
    using scan_list_loop_continue_none [of c scan_one ctx e v ctxa rd] by blast
  have 8: "c_size c < max_size c \<and> scan_one ctx = (e, v, ctxa) \<and> is_good e
        \<and> rd ctxa = (Inr sep, ctxb) \<longrightarrow>
      scan_list_loop scan_one rd (Some sep) ctx c
        = scan_list_loop scan_one rd (Some sep) ctxb (c\<lparr>elems := elems c @ [v]\<rparr>)"
    using scan_list_loop_continue_sep [of c scan_one ctx e v ctxa rd sep ctxb] by blast
  have 9: "c_size c < max_size c \<and> scan_one ctx = (e, v, ctxa) \<and> \<not> is_good e
        \<and> code e \<noteq> end_of_range \<longrightarrow>
      scan_list_loop scan_one rd separator ctx c = Some (e, ctxa, c)"
    using scan_list_loop_value_error [of c scan_one ctx e v ctxa rd separator] by blast
  have 10: "c_size c < max_size c \<and> scan_one ctx = (e, v, ctxa) \<and> is_good e
        \<and> rd ctxa = (Inl es, ctxb) \<and> code es \<noteq> end_of_range \<longrightarrow>
      scan_list_loop scan_one rd (Some sep) ctx c
        = Some (es, ctxb, c\<lparr>elems := elems c @ [v]\<rparr>)"
    using scan_list_loop_sep_error [of c scan_one ctx e v ctxa rd es ctxb sep] by blast
  have 11: "scan_list_loop scan_one read_char separator (wrap nb r) cin = Some (e', ctx', c')
        \<and> wrap_result e' tag nb ctx' \<noteq> None \<longrightarrow>
        (\<exists>w. wrap_result e' tag nb ctx' = Some (e', w)
           \<and> scan_list scan_one nb tag r cin separator = Some ((e', w), c'))"
    using scan_list_from_loop [of scan_one separator nb r cin e' ctx' c' tag] by blast
  have 12: "c_size cin \<le> max_size cin \<and> (\<forall>a b. tag \<noteq> rvalue_nonref_other a b) \<longrightarrow>
        (\<exists>ef w cf. scan_list scan_one nb tag r cin separator = Some ((ef, w), cf)
           \<and> (\<exists>ys. elems cf = elems cin @ ys)
           \<and> (\<not> is_good ef \<longrightarrow> code ef \<noteq> end_of_range
                 \<and> ((\<exists>x. fst (scan_one x) = ef) \<or> (\<exists>x. fst (read_char x) = (Inl ef :: error + 'c)))))"
    using scan_list_total [of cin tag scan_one nb r separator] by blast
  have 13: "scan_list_loop scan_one read_char separator (wrap nb r) cin
          = scan_list_loop scan_one read_char separator ctx c
        \<and> c_size c = max_size c \<and> wrap_result no_error tag nb ctx \<noteq> None \<longrightarrow>
        (\<exists>w. wrap_result no_error tag nb ctx = Some (no_error, w)
           \<and> scan_list scan_one nb tag r cin separator = Some ((no_error, w), c))"
    using scan_list_stop [of scan_one separator nb r cin ctx c ctx c tag]
      scan_list_loop_full [of c scan_one read_char separator ctx]
    by blast
  have 14: "scan_list_loop scan_one read_char separator (wrap nb r) cin
          = scan_list_loop scan_one read_char separator ctx c
        \<and> c_size c < max_size c \<and> scan_one ctx = (e, v, ctxa) \<and> code e = end_of_range
        \<and> wrap_result no_error tag nb ctxa \<noteq> None \<longrightarrow>
        (\<exists>w. wrap_result no_error tag nb ctxa = Some (no_error, w)
           \<and> scan_list scan_one nb tag r cin separator = Some ((no_error, w), c))"
    using scan_list_stop [of scan_one separator nb r cin ctx c ctxa c tag]
      scan_list_loop_value_eor [of c scan_one ctx e v ctxa read_char separator]
    by (metis less_irrefl)
  have 15: "scan_list_loop scan_one read_char (Some sep) (wrap nb r) cin
          = scan_list_loop scan_one read_char (Some sep) ctx c
        \<and> c_size c < max_size c \<and> scan_one ctx = (e, v, ctxa) \<and> is_good e
        \<and> read_char ctxa = (Inl es, ctxb) \<and> code es = end_of_range
        \<and> wrap_result no_error tag nb ctxb \<noteq> None \<longrightarrow>
        (\<exists>w. wrap_result no_error tag nb ctxb = Some (no_error, w)
           \<and> scan_list scan_one nb tag r cin (Some sep)
               = Some ((no_error, w), c\<lparr>elems := elems c @ [v]\<rparr>))"
    using scan_list_stop [of scan_one "Some sep" nb r cin ctx c ctxb
        "c\<lparr>elems := elems c @ [v]\<rparr>" tag]
      scan_list_loop_sep_eor [of c scan_one ctx e v ctxa read_char es ctxb sep]
    by blast
  have 16: "scan_list_loop scan_one read_char (Some sep) (wrap nb r) cin
          = scan_list_loop scan_one read_char (Some sep) ctx c
        \<and> c_size c < max_size c \<and> scan_one ctx = (e, v, ctxa) \<and> is_good e
        \<and> read_char ctxa = (Inr ch, ctxb) \<and> ch \<noteq> sep
        \<and> wrap_result no_error tag nb ctxb \<noteq> None \<longrightarrow>
        (\<exists>w. wrap_result no_error tag nb ctxb = Some (no_error, w)
           \<and> scan_list scan_one nb tag r cin (Some sep)
               = Some ((no_error, w), c\<lparr>elems := elems c @ [v]\<rparr>))"
    using scan_list_stop [of scan_one "Some sep" nb r cin ctx c ctxb
        "c\<lparr>elems := elems c @ [v]\<rparr>" tag]
      scan_list_loop_sep_other [of c scan_one ctx e v ctxa read_char ch ctxb sep]
    by blast
  from 1 2 3 4 5 6 7 8 9 10 11 12 13 14 15 16 show ?thesis by (intro conjI)
qed

theorem scan_list_stops_successfully_witness:
  "scan_list scan_digit 0 string_literal (range_input list_source)
      \<lparr>elems = [], max_size = 3\<rparr> (Some CHR '','')
     = Some ((no_error, \<lparr>m_range = list_source, m_begin = 4, m_read = 4\<rparr>),
             \<lparr>elems = [1, 2], max_size = 3\<rparr>)
   \<and> scan_list scan_digit 0 string_literal (range_input list_source)
      \<lparr>elems = [1, 2], max_size = 2\<rparr> (Some CHR '','')
     = Some ((no_error, \<lparr>m_range = list_source, m_begin = 0, m_read = 0\<rparr>),
             \<lparr>elems = [1, 2], max_size = 2\<rparr>)
   \<and> scan_list scan_digit 0 wrapper_passthrough
      (wrapped_input \<lparr>m_range = list_source, m_begin = 4, m_read = 4\<rparr>)
      \<lparr>elems = [1, 2], max_size = 9\<rparr> None
     = Some ((no_error, \<lparr>m_range = list_source, m_begin = 5, m_read = 5\<rparr>),
             \<lparr>elems = [1, 2, 3], max_size = 9\<rparr>)
   \<and> scan_list scan_digit 0 wrapper_passthrough
      (wrapped_input \<lparr>m_range = list_source, m_begin = 4, m_read = 4\<rparr>)
      \<lparr>elems = [1, 2], max_size = 9\<rparr> (Some CHR '','')
     = Some ((no_error, \<lparr>m_range = list_source, m_begin = 5, m_read = 5\<rparr>),
             \<lparr>elems = [1, 2, 3], max_size = 9\<rparr>)"
proof -
  let ?w0 = "\<lparr>m_range = list_source, m_begin = 0, m_read = 0\<rparr>"
  let ?w1 = "\<lparr>m_range = list_source, m_begin = 1, m_read = 1\<rparr>"
  let ?w2 = "\<lparr>m_range = list_source, m_begin = 2, m_read = 2\<rparr>"
  let ?w3 = "\<lparr>m_range = list_source, m_begin = 3, m_read = 3\<rparr>"
  let ?w4 = "\<lparr>m_range = list_source, m_begin = 4, m_read = 4\<rparr>"
  let ?w5 = "\<lparr>m_range = list_source, m_begin = 5, m_read = 5\<rparr>"
  let ?sep = "CHR '',''"
  have i0: "wrap 0 (range_input list_source) = ?w0"
    by (simp add: wrap_def range_wrapper_ctor_def list_source_def)
  have i4: "wrap 0 (wrapped_input ?w4) = ?w4"
    by (simp add: wrap_def copy_construct_def relocate_def distance_def begin_underlying_def
        list_source_def Let_def)
  have s0: "scan_digit ?w0 = (no_error, 1, ?w1)"
    by (simp add: scan_digit_def digit_value_def cursor_eval list_source_def)
  have r1: "read_char ?w1 = (Inr ?sep, ?w2)"
    by (simp add: cursor_eval list_source_def)
  have s2: "scan_digit ?w2 = (no_error, 2, ?w3)"
    by (simp add: scan_digit_def digit_value_def cursor_eval list_source_def)
  have r3: "read_char ?w3 = (Inr CHR '' '', ?w4)"
    by (simp add: cursor_eval list_source_def)
  have s4: "scan_digit ?w4 = (no_error, 3, ?w5)"
    by (simp add: scan_digit_def digit_value_def cursor_eval list_source_def)
  have r5: "read_char ?w5 = (Inl (mk_error end_of_range ''EOF''), ?w5)"
    by (simp add: cursor_eval list_source_def)
  have s5: "scan_digit ?w5 = (mk_error end_of_range ''EOF'', 0, ?w5)"
    by (simp add: scan_digit_def r5)
  have eor: "code (mk_error end_of_range ''EOF'') = end_of_range" by (simp add: mk_error_def)
  have wr: "wrap_result no_error string_literal 0 ?w4 = Some (no_error, ?w4)"
    "wrap_result no_error string_literal 0 ?w0 = Some (no_error, ?w0)"
    "wrap_result no_error wrapper_passthrough 0 ?w5 = Some (no_error, ?w5)"
    by (simp_all add: wrap_result_def move_construct_def relocate_def distance_def
        begin_underlying_def list_source_def Let_def)
  have reach_a: "scan_list_loop scan_digit read_char (Some ?sep) ?w0 \<lparr>elems = [], max_size = 3\<rparr>
      = scan_list_loop scan_digit read_char (Some ?sep) ?w2 \<lparr>elems = [1], max_size = 3\<rparr>"
    using scan_list_stops_successfully [where scan_one = scan_digit and rd = read_char
        and ctx = ?w0 and c = "\<lparr>elems = [], max_size = 3\<rparr>" and e = no_error and v = 1
        and ctxa = ?w1 and sep = ?sep and ctxb = ?w2] s0 r1
    by (simp add: c_size_def)
  have not_separator: "scan_list scan_digit 0 string_literal (range_input list_source)
      \<lparr>elems = [], max_size = 3\<rparr> (Some ?sep)
     = Some ((no_error, ?w4), \<lparr>elems = [1, 2], max_size = 3\<rparr>)"
    using scan_list_stops_successfully [where scan_one = scan_digit and nb = 0
        and r = "range_input list_source" and cin = "\<lparr>elems = [], max_size = 3\<rparr>"
        and tag = string_literal and ctx = ?w2 and c = "\<lparr>elems = [1], max_size = 3\<rparr>"
        and e = no_error and v = 2 and ctxa = ?w3 and ch = "CHR '' ''" and ctxb = ?w4
        and sep = ?sep] reach_a s2 r3 wr(1)
    by (simp add: i0 c_size_def)
  have full: "scan_list scan_digit 0 string_literal (range_input list_source)
      \<lparr>elems = [1, 2], max_size = 2\<rparr> (Some ?sep)
     = Some ((no_error, ?w0), \<lparr>elems = [1, 2], max_size = 2\<rparr>)"
    using scan_list_stops_successfully [where scan_one = scan_digit and nb = 0
        and r = "range_input list_source" and cin = "\<lparr>elems = [1, 2], max_size = 2\<rparr>"
        and tag = string_literal and ctx = ?w0 and c = "\<lparr>elems = [1, 2], max_size = 2\<rparr>"
        and separator = "Some ?sep"] wr(2)
    by (simp add: i0 c_size_def)
  have reach_c: "scan_list_loop scan_digit read_char None ?w4 \<lparr>elems = [1, 2], max_size = 9\<rparr>
      = scan_list_loop scan_digit read_char None ?w5 \<lparr>elems = [1, 2, 3], max_size = 9\<rparr>"
    using scan_list_stops_successfully [where scan_one = scan_digit and rd = read_char
        and ctx = ?w4 and c = "\<lparr>elems = [1, 2], max_size = 9\<rparr>" and e = no_error and v = 3
        and ctxa = ?w5] s4
    by (simp add: c_size_def)
  have value_end: "scan_list scan_digit 0 wrapper_passthrough (wrapped_input ?w4)
      \<lparr>elems = [1, 2], max_size = 9\<rparr> None
     = Some ((no_error, ?w5), \<lparr>elems = [1, 2, 3], max_size = 9\<rparr>)"
    using scan_list_stops_successfully [where scan_one = scan_digit and nb = 0
        and r = "wrapped_input ?w4" and cin = "\<lparr>elems = [1, 2], max_size = 9\<rparr>"
        and tag = wrapper_passthrough and ctx = ?w5
        and c = "\<lparr>elems = [1, 2, 3], max_size = 9\<rparr>" and separator = None
        and e = "mk_error end_of_range ''EOF''" and v = 0 and ctxa = ?w5] reach_c s5 eor wr(3)
    by (simp add: i4 c_size_def)
  have separator_end: "scan_list scan_digit 0 wrapper_passthrough (wrapped_input ?w4)
      \<lparr>elems = [1, 2], max_size = 9\<rparr> (Some ?sep)
     = Some ((no_error, ?w5), \<lparr>elems = [1, 2, 3], max_size = 9\<rparr>)"
    using scan_list_stops_successfully [where scan_one = scan_digit and nb = 0
        and r = "wrapped_input ?w4" and cin = "\<lparr>elems = [1, 2], max_size = 9\<rparr>"
        and tag = wrapper_passthrough and ctx = ?w4
        and c = "\<lparr>elems = [1, 2], max_size = 9\<rparr>" and sep = ?sep
        and e = no_error and v = 3 and ctxa = ?w5
        and es = "mk_error end_of_range ''EOF''" and ctxb = ?w5] s4 r5 eor wr(3)
    by (simp add: i4 c_size_def)
  from not_separator full value_end separator_end show ?thesis by simp
qed

text \<open>The list \<open>1,2,3\<close> with separator \<open>,\<close> and room for three elements: all three are
  read and the call returns no error (the loop ends when the read of the next separator
  meets the end of the input).\<close>

lemma scan_list_example:
  "scan_list scan_digit 0 string_literal (range_input csv_source)
      \<lparr>elems = [], max_size = 3\<rparr> (Some CHR '','')
     = Some ((no_error, \<lparr>m_range = csv_source, m_begin = 5, m_read = 5\<rparr>),
             \<lparr>elems = [1, 2, 3], max_size = 3\<rparr>)"
  by (simp add: scan_list_def scan_list_loop.simps wrap_def scan_digit_def digit_value_def
      cursor_eval csv_source_def c_size_def push_back_def is_good_def no_error_def mk_error_def
      wrap_result_def move_construct_def relocate_def)

subsection \<open>The scan_list_until loop\<close>

lemma putback_after_advance: "putback_n (advance 1 r) 1 = r"
  by (simp add: putback_n_def advance_def Let_def)

lemma read_char_Cons:
  "remaining r = Some (x # xs) \<Longrightarrow> read_char r = (Inr x, advance 1 r)"
  by (simp add: read_char_def)

lemma remaining_advance:
  assumes nc: "\<not> caching (m_range r)" and rem: "remaining r = Some xs" and n: "n \<le> length xs"
  shows "remaining (advance (int n) r) = Some (drop n xs)"
proof -
  let ?off = "m_begin r - base (m_range r)"
  from rem have off: "0 \<le> ?off" "?off \<le> int (length (chars (m_range r)))"
    and xs: "xs = drop (nat ?off) (chars (m_range r))"
    by (auto simp: remaining_def Let_def distance_def begin_underlying_def wrapper_begin_def
        split: if_splits)
  have a: "advance (int n) r = r\<lparr>m_read := m_read r + int n, m_begin := m_begin r + int n\<rparr>"
    using nc by (simp add: advance_def Let_def)
  have len: "int n + ?off \<le> int (length (chars (m_range r)))"
    using n off xs by simp
  have nat_eq: "nat (m_begin r + int n - base (m_range r)) = n + nat ?off"
    using off by linarith
  have "remaining (advance (int n) r) = Some (drop (n + nat ?off) (chars (m_range r)))"
    using off len nat_eq
    by (simp add: a remaining_def Let_def distance_def begin_underlying_def wrapper_begin_def)
  then show ?thesis using xs by (simp add: add.commute)
qed

lemma scan_list_until_loop_until:
  "c_size c < max_size c \<Longrightarrow> scan_one ctx = (e, v, ctxa) \<Longrightarrow> is_good e \<Longrightarrow>
   rd ctxa = (Inr ch, ctxb) \<Longrightarrow> ch = until \<Longrightarrow>
   scan_list_until_loop scan_one rd pb is_space until separator ctx c
     = Some (no_error, ctxb, c\<lparr>elems := elems c @ [v]\<rparr>)"
  by (simp add: scan_list_until_loop.simps push_back_Some)

lemma scan_list_until_loop_second:
  "c_size c < max_size c \<Longrightarrow> scan_one ctx = (e, v, ctxa) \<Longrightarrow> is_good e \<Longrightarrow>
   rd ctxa = (Inr ch, ctxb) \<Longrightarrow> ch \<noteq> until \<Longrightarrow>
   (case separator of Some sep \<Rightarrow> ch = sep | None \<Rightarrow> is_space ch) \<Longrightarrow>
   rd ctxb = (Inr ch', ctxc) \<Longrightarrow>
   scan_list_until_loop scan_one rd pb is_space until separator ctx c
     = (if ch' = until then Some (no_error, ctxc, c\<lparr>elems := elems c @ [v]\<rparr>)
        else scan_list_until_loop scan_one rd pb is_space until separator (pb ctxc 1)
               (c\<lparr>elems := elems c @ [v]\<rparr>))"
  by (subst scan_list_until_loop.simps) (simp add: push_back_Some split: option.splits)

text \<open>Claim C6 (as it is in the sources). After each scanned element \<open>scan_list_until\<close> reads
  one character. If it is \<open>until\<close>, the loop stops with no error and the cursor stays
  where the read left it: with the reader of this model, after the \<open>until\<close> character,
  which is consumed. If the character is an accepted separator, one more character is
  read: if that is \<open>until\<close> the loop stops, again past it; otherwise it is put back,
  which restores the cursor, and the loop goes on.\<close>

theorem scan_list_until_stops_past_until:
  "(c_size c < max_size c \<and> scan_one ctx = (e, v, ctxa) \<and> is_good e
      \<and> rd ctxa = (Inr until, ctxb) \<longrightarrow>
    scan_list_until_loop scan_one rd pb is_space until separator ctx c
      = Some (no_error, ctxb, c\<lparr>elems := elems c @ [v]\<rparr>))
   \<and> (c_size c < max_size c \<and> scan_one ctx = (e, v, ctxa) \<and> is_good e
      \<and> \<not> caching (m_range ctxa) \<and> remaining ctxa = Some (until # rest) \<longrightarrow>
    scan_list_until_loop scan_one read_char putback_n is_space until separator ctx c
      = Some (no_error, advance 1 ctxa, c\<lparr>elems := elems c @ [v]\<rparr>)
    \<and> remaining (advance 1 ctxa) = Some rest)
   \<and> (c_size c < max_size c \<and> scan_one ctx = (e, v, ctxa) \<and> is_good e
      \<and> rd ctxa = (Inr ch, ctxb) \<and> ch \<noteq> until
      \<and> (case separator of Some sep \<Rightarrow> ch = sep | None \<Rightarrow> is_space ch)
      \<and> rd ctxb = (Inr ch', ctxc) \<longrightarrow>
    scan_list_until_loop scan_one rd pb is_space until separator ctx c
     = (if ch' = until then Some (no_error, ctxc, c\<lparr>elems := elems c @ [v]\<rparr>)
        else scan_list_until_loop scan_one rd pb is_space until separator (pb ctxc 1)
               (c\<lparr>elems := elems c @ [v]\<rparr>)))
   \<and> putback_n (advance 1 ctxb) 1 = ctxb"
proof -
  have a: "c_size c < max_size c \<and> scan_one ctx = (e, v, ctxa) \<and> is_good e
      \<and> rd ctxa = (Inr until, ctxb) \<longrightarrow>
    scan_list_until_loop scan_one rd pb is_space until separator ctx c
      = Some (no_error, ctxb, c\<lparr>elems := elems c @ [v]\<rparr>)"
    using scan_list_until_loop_until [where c = c and scan_one = scan_one and ctx = ctx and e = e
        and v = v and ctxa = ctxa and rd = rd and ch = until and ctxb = ctxb
        and until = until and pb = pb and is_space = is_space and separator = separator]
    by simp
  have b: "scan_list_until_loop scan_one read_char putback_n is_space until separator ctx c
      = Some (no_error, advance 1 ctxa, c\<lparr>elems := elems c @ [v]\<rparr>)
    \<and> remaining (advance 1 ctxa) = Some rest"
    if h: "c_size c < max_size c" "scan_one ctx = (e, v, ctxa)" "is_good e"
      "\<not> caching (m_range ctxa)" "remaining ctxa = Some (until # rest)"
  proof -
    have r: "read_char ctxa = (Inr until, advance 1 ctxa)" using h(5) by (rule read_char_Cons)
    have "remaining (advance (int 1) ctxa) = Some (drop 1 (until # rest))"
      using h(4) h(5) by (rule remaining_advance) simp
    then have "remaining (advance 1 ctxa) = Some rest" by simp
    then show ?thesis
      using scan_list_until_loop_until [where c = c and scan_one = scan_one and ctx = ctx and e = e
          and v = v and ctxa = ctxa and rd = read_char and ch = until and ctxb = "advance 1 ctxa"
          and until = until and pb = putback_n and is_space = is_space and separator = separator]
        h r
      by simp
  qed
  have c: "c_size c < max_size c \<and> scan_one ctx = (e, v, ctxa) \<and> is_good e
      \<and> rd ctxa = (Inr ch, ctxb) \<and> ch \<noteq> until
      \<and> (case separator of Some sep \<Rightarrow> ch = sep | None \<Rightarrow> is_space ch)
      \<and> rd ctxb = (Inr ch', ctxc) \<longrightarrow>
    scan_list_until_loop scan_one rd pb is_space until separator ctx c
     = (if ch' = until then Some (no_error, ctxc, c\<lparr>elems := elems c @ [v]\<rparr>)
        else scan_list_until_loop scan_one rd pb is_space until separator (pb ctxc 1)
               (c\<lparr>elems := elems c @ [v]\<rparr>))"
    using scan_list_until_loop_second [where c = c and scan_one = scan_one and ctx = ctx and e = e
        and v = v and ctxa = ctxa and rd = rd and ch = ch and ctxb = ctxb and until = until
        and separator = separator and is_space = is_space and ch' = ch' and ctxc = ctxc
        and pb = pb]
    by blast
  from a b c putback_after_advance [of ctxb] show ?thesis by blast
qed

theorem scan_list_until_stops_past_until_witness:
  "scan_list_until_loop scan_digit read_char putback_n ascii_is_space CHR '';'' None
      (range_wrapper_ctor until_source) \<lparr>elems = [], max_size = 3\<rparr>
     = Some (no_error, \<lparr>m_range = until_source, m_begin = 2, m_read = 2\<rparr>,
             \<lparr>elems = [1], max_size = 3\<rparr>)
   \<and> remaining \<lparr>m_range = until_source, m_begin = 2, m_read = 2\<rparr> = Some ''2''"
proof -
  let ?w0 = "range_wrapper_ctor until_source"
  let ?w1 = "\<lparr>m_range = until_source, m_begin = 1, m_read = 1\<rparr>"
  have s0: "scan_digit ?w0 = (no_error, 1, ?w1)"
    by (simp add: scan_digit_def digit_value_def cursor_eval until_source_def)
  have nc: "\<not> caching (m_range ?w1)" by (simp add: until_source_def)
  have r1: "remaining ?w1 = Some (CHR '';'' # ''2'')"
    by (simp add: cursor_eval until_source_def)
  have a1: "advance 1 ?w1 = \<lparr>m_range = until_source, m_begin = 2, m_read = 2\<rparr>"
    by (simp add: cursor_eval until_source_def)
  show ?thesis
    using scan_list_until_stops_past_until [where c = "\<lparr>elems = [], max_size = 3\<rparr>"
        and scan_one = scan_digit and ctx = ?w0 and e = no_error and v = 1 and ctxa = ?w1
        and until = "CHR '';''" and rest = "''2''" and is_space = ascii_is_space
        and separator = None]
      s0 nc r1 a1
    by (simp add: c_size_def)
qed

text \<open>Claim C6 as stated fails: on \<open>1;2\<close> with \<open>until = ;\<close> the call succeeds with one
  element and the leftover input is \<open>2\<close>, not \<open>;2\<close>.\<close>

theorem scan_list_until_leftover_counterexample:
  "scan_list_until scan_digit ascii_is_space 0 string_literal (range_input until_source)
      \<lparr>elems = [], max_size = 3\<rparr> CHR '';'' None
     = Some ((no_error, \<lparr>m_range = until_source, m_begin = 2, m_read = 2\<rparr>),
             \<lparr>elems = [1], max_size = 3\<rparr>)
   \<and> remaining \<lparr>m_range = until_source, m_begin = 2, m_read = 2\<rparr> = Some ''2''
   \<and> remaining \<lparr>m_range = until_source, m_begin = 2, m_read = 2\<rparr> \<noteq> Some '';2''"
  by (simp add: scan_list_until_def scan_list_until_loop.simps wrap_def scan_digit_def
      digit_value_def cursor_eval until_source_def c_size_def push_back_def is_good_def
      no_error_def wrap_result_def move_construct_def relocate_def)

subsection \<open>ignore_until and the rollback point\<close>

lemma span_until_False: "span_until p False xs = takeWhile (\<lambda>x. \<not> p x) xs"
  by (induction xs) simp_all


lemma read_until_space_success:
  "remaining r = Some xs \<Longrightarrow> xs \<noteq> [] \<Longrightarrow>
   read_until_space r p keep
     = (no_error, span_until p keep xs, advance (int (length (span_until p keep xs))) r)"
  by (cases xs) (simp_all add: read_until_space_def Let_def)

lemma read_until_space_ranged_success:
  "remaining r = Some xs \<Longrightarrow> xs \<noteq> [] \<Longrightarrow>
   read_until_space_ranged r n p keep
     = (no_error, span_until p keep (if n < 0 then xs else take (nat n) xs),
        advance (int (length (span_until p keep (if n < 0 then xs else take (nat n) xs)))) r)"
  by (cases xs) (simp_all add: read_until_space_ranged_def Let_def)

lemma remaining_some_bounds:
  "remaining w = Some ys \<Longrightarrow>
   base (m_range w) \<le> m_begin w \<and> m_begin w \<le> wrapper_end w
   \<and> ys = drop (nat (m_begin w - base (m_range w))) (chars (m_range w))"
  by (auto simp: remaining_def Let_def distance_def begin_underlying_def wrapper_begin_def
      wrapper_end_def split: if_splits)

lemma wrap_result_through:
  "passes_cursor_through tag \<Longrightarrow> wrap_result e tag nb w = Some (e, fst (move_construct nb w))"
  by (auto simp: passes_cursor_through_def wrap_result_def)

lemma m_read_move_construct: "m_read (fst (move_construct nb w)) = m_read w"
  by (simp add: move_construct_def Let_def)

lemma caching_move_construct:
  "caching (m_range (fst (move_construct nb w))) = caching (m_range w)"
  by (simp add: move_construct_def relocate_def Let_def)

lemma wrap_result_props:
  assumes nc: "\<not> caching (m_range w)" and rem: "remaining w = Some ys"
  shows "\<exists>w'. wrap_result e tag nb w = Some (e, w') \<and> remaining w' = Some ys
           \<and> m_read w' = (if passes_cursor_through tag then m_read w else 0)"
proof -
  have "remaining (rewrap_same nb w) = remaining w"
    using nc by (intro remaining_rewrap_same) simp
  then have rs: "remaining (rewrap_same nb w) = Some ys" "m_read (rewrap_same nb w) = 0"
    using rem by (simp_all add: rewrap_same_eq)
  have rr: "rewrap_reconstruct nb cach contig w
      = Some (range_wrapper_ctor \<lparr>base = nb, chars = ys, caching = cach, contiguous = contig\<rparr>)"
    for cach contig using rem by (simp add: rewrap_reconstruct_def)
  have rc: "remaining (range_wrapper_ctor \<lparr>base = nb, chars = ys, caching = cach, contiguous = contig\<rparr>)
      = Some ys" for cach contig
    by (simp add: remaining_def range_wrapper_ctor_def Let_def distance_def begin_underlying_def
        wrapper_begin_def)
  show ?thesis
    using rs rr rc rem
    by (cases tag)
      (simp_all add: wrap_result_def passes_cursor_through_def remaining_move_construct
        m_read_move_construct range_wrapper_ctor_def)
qed


lemma rollback_after_move:
  assumes nc: "\<not> caching (m_range w0)" and rem: "remaining w0 = Some xs"
    and k: "k \<le> length xs" and rd: "m_read w0 = 0"
  shows "\<exists>w'. reset_to_rollback_point (fst (move_construct nb (advance (int k) w0)))
               = Some (no_error, w') \<and> remaining w' = Some xs"
proof -
  let ?off = "m_begin w0 - base (m_range w0)"
  let ?w = "fst (move_construct nb (advance (int k) w0))"
  from remaining_some_bounds [OF rem] have off: "0 \<le> ?off"
    and le: "m_begin w0 \<le> wrapper_end w0"
    and xs: "xs = drop (nat ?off) (chars (m_range w0))" by simp_all
  have w: "?w = \<lparr>m_range = relocate nb (m_range w0), m_begin = nb + (?off + int k),
                 m_read = int k\<rparr>"
    using nc rd
    by (simp add: move_construct_def advance_def Let_def distance_def begin_underlying_def
        relocate_def)
  have off2: "?off \<le> int (length (chars (m_range w0)))"
    using le by (simp add: wrapper_end_def)
  have len: "?off + int k \<le> int (length (chars (m_range w0)))"
    using k xs off off2 by simp
  have e: "wrapper_end ?w = nb + int (length (chars (m_range w0)))"
    by (simp add: w wrapper_end_def relocate_def)
  have "\<forall>i\<in>{1..k}. m_begin ?w - int i \<noteq> wrapper_end ?w"
    using len by (auto simp: e) (simp add: w)
  moreover have "m_read ?w = int k" by (simp add: w)
  ultimately have
    "reset_to_rollback_point ?w = Some (no_error, ?w\<lparr>m_begin := m_begin ?w - int k, m_read := 0\<rparr>)"
    by (intro reset_ok)
  moreover have "remaining (?w\<lparr>m_begin := m_begin ?w - int k, m_read := 0\<rparr>) = Some xs"
    using off len xs
    by (simp add: w remaining_def Let_def distance_def begin_underlying_def wrapper_begin_def
        relocate_def)
  ultimately show ?thesis by blast
qed

lemma ignore_until_eq:
  assumes rem: "remaining (wrap nb r) = Some xs" and ne: "xs \<noteq> []"
  shows "ignore_until nb tag r until
     = wrap_result no_error tag nb
         (advance (int (length (takeWhile (\<lambda>ch. ch \<noteq> until) xs))) (wrap nb r))"
  using read_until_space_success [OF rem ne, of "\<lambda>ch. ch = until" False]
  by (simp add: ignore_until_def ignore_until_impl_def Let_def span_until_False)

lemma ignore_until_n_eq:
  assumes rem: "remaining (wrap nb r) = Some xs" and ne: "xs \<noteq> []"
  shows "ignore_until_n nb tag r n until
     = wrap_result no_error tag nb
         (advance (int (length (takeWhile (\<lambda>ch. ch \<noteq> until)
                                   (if n < 0 then xs else take (nat n) xs)))) (wrap nb r))"
  using read_until_space_ranged_success [OF rem ne, of n "\<lambda>ch. ch = until" False]
  by (simp add: ignore_until_n_def ignore_until_n_impl_def Let_def span_until_False)

lemma discard_outcome:
  assumes nc: "\<not> caching (m_range w0)" and rem: "remaining w0 = Some xs" and k: "k \<le> length xs"
  shows "\<exists>w. wrap_result no_error tag nb (advance (int k) w0) = Some (no_error, w)
      \<and> remaining w = Some (drop k xs)
      \<and> m_read w = (if passes_cursor_through tag then m_read w0 + int k else 0)
      \<and> (passes_cursor_through tag \<and> m_read w0 = 0 \<longrightarrow>
           (\<exists>w'. reset_to_rollback_point w = Some (no_error, w') \<and> remaining w' = Some xs))"
proof -
  let ?w1 = "advance (int k) w0"
  have nc1: "\<not> caching (m_range ?w1)" using nc by (simp add: advance_def Let_def)
  have r1: "remaining ?w1 = Some (drop k xs)" using nc rem k by (rule remaining_advance)
  have m1: "m_read ?w1 = m_read w0 + int k" by (simp add: advance_def Let_def)
  from wrap_result_props [OF nc1 r1, of no_error tag nb] obtain w where
    w: "wrap_result no_error tag nb ?w1 = Some (no_error, w)" "remaining w = Some (drop k xs)"
      "m_read w = (if passes_cursor_through tag then m_read ?w1 else 0)" by blast
  have "\<exists>w'. reset_to_rollback_point w = Some (no_error, w') \<and> remaining w' = Some xs"
    if p: "passes_cursor_through tag" and z: "m_read w0 = 0"
  proof -
    from w(1) wrap_result_through [OF p, of no_error nb ?w1]
    have "w = fst (move_construct nb ?w1)" by simp
    then show ?thesis using rollback_after_move [OF nc rem k z, of nb] by simp
  qed
  then show ?thesis using w m1 by auto
qed


text \<open>Claim C5 (as it is in the sources). A successful \<open>ignore_until\<close> or
  \<open>ignore_until_n\<close> (on a non-caching source with input left) returns no error and a
  leftover that begins past the discarded characters. The rollback point is not touched
  by the call: the reset in the source is on the error branch. So the consumed count of
  the result is zero only when the result is rewrapped; when \<open>wrap_result\<close> passes the
  scanned cursor through (a wrapper, a string literal, or a range passed by reference
  whose wrapper holds a view) the count has grown by the number of discarded characters,
  and for a cursor that started at its rollback point a later \<open>reset_to_rollback_point\<close>
  succeeds and brings the discarded characters back.\<close>

theorem ignore_until_success:
  assumes "\<not> caching (m_range (wrap nb r))" and "remaining (wrap nb r) = Some xs" and "xs \<noteq> []"
  shows "(\<exists>w. ignore_until nb tag r until = Some (no_error, w)
      \<and> remaining w = Some (dropWhile (\<lambda>ch. ch \<noteq> until) xs)
      \<and> m_read w = (if passes_cursor_through tag
                     then m_read (wrap nb r) + int (length (takeWhile (\<lambda>ch. ch \<noteq> until) xs))
                     else 0)
      \<and> (passes_cursor_through tag \<and> m_read (wrap nb r) = 0 \<longrightarrow>
           (\<exists>w'. reset_to_rollback_point w = Some (no_error, w') \<and> remaining w' = Some xs)))
   \<and> (\<exists>w. ignore_until_n nb tag r n until = Some (no_error, w)
      \<and> remaining w
          = Some (drop (length (takeWhile (\<lambda>ch. ch \<noteq> until)
                                  (if n < 0 then xs else take (nat n) xs))) xs)
      \<and> m_read w = (if passes_cursor_through tag
                     then m_read (wrap nb r)
                          + int (length (takeWhile (\<lambda>ch. ch \<noteq> until)
                                           (if n < 0 then xs else take (nat n) xs)))
                     else 0)
      \<and> (passes_cursor_through tag \<and> m_read (wrap nb r) = 0 \<longrightarrow>
           (\<exists>w'. reset_to_rollback_point w = Some (no_error, w') \<and> remaining w' = Some xs)))"
proof -
  let ?k = "length (takeWhile (\<lambda>ch. ch \<noteq> until) xs)"
  let ?kn = "length (takeWhile (\<lambda>ch. ch \<noteq> until) (if n < 0 then xs else take (nat n) xs))"
  have k: "?k \<le> length xs" by (rule length_takeWhile_le)
  have "?kn \<le> length (if n < 0 then xs else take (nat n) xs)" by (rule length_takeWhile_le)
  then have kn: "?kn \<le> length xs" by (simp split: if_splits)
  have d: "drop ?k xs = dropWhile (\<lambda>ch. ch \<noteq> until) xs"
    by (simp add: dropWhile_eq_drop)
  show ?thesis
    using discard_outcome [OF assms(1) assms(2) k, of tag nb]
      discard_outcome [OF assms(1) assms(2) kn, of tag nb]
      ignore_until_eq [OF assms(2) assms(3), of tag until]
      ignore_until_n_eq [OF assms(2) assms(3), of tag n until] d
    by simp
qed

theorem ignore_until_success_witness:
  "(\<exists>w. ignore_until 100 string_literal (range_input hello_source) CHR ''l'' = Some (no_error, w)
      \<and> remaining w = Some ''llo'' \<and> m_read w = 2
      \<and> (\<exists>w'. reset_to_rollback_point w = Some (no_error, w') \<and> remaining w' = Some ''hello''))
   \<and> (\<exists>w. ignore_until_n 100 rvalue_ref (range_input hello_source) 1 CHR ''l'' = Some (no_error, w)
      \<and> remaining w = Some ''ello'' \<and> m_read w = 0)"
proof -
  let ?w0 = "wrap 100 (range_input hello_source)"
  have nc: "\<not> caching (m_range ?w0)"
    by (simp add: wrap_def range_wrapper_ctor_def hello_source_def)
  have rem: "remaining ?w0 = Some ''hello''"
    by (simp add: wrap_def cursor_eval hello_source_def)
  have z: "m_read ?w0 = 0" by (simp add: wrap_def range_wrapper_ctor_def)
  have ne: "''hello'' \<noteq> []" by simp
  show ?thesis
    using ignore_until_success [OF nc rem ne, of string_literal "CHR ''l''" 1]
      ignore_until_success [OF nc rem ne, of rvalue_ref "CHR ''l''" 1] z
    by (simp add: passes_cursor_through_def)
qed

text \<open>Claim C5 as stated fails: after a successful \<open>ignore_until\<close> over \<open>hello\<close> up to
  \<open>l\<close>, the consumed count of the returned cursor is 2, not zero, and resetting it to the
  rollback point returns to the start of the input.\<close>

theorem ignore_until_rollback_counterexample:
  "ignore_until 100 string_literal (range_input hello_source) CHR ''l''
     = Some (no_error, \<lparr>m_range = hello_source, m_begin = 102, m_read = 2\<rparr>)
   \<and> m_read \<lparr>m_range = hello_source, m_begin = 102, m_read = 2\<rparr> \<noteq> 0
   \<and> reset_to_rollback_point \<lparr>m_range = hello_source, m_begin = 102, m_read = 2\<rparr>
     = Some (no_error, \<lparr>m_range = hello_source, m_begin = 100, m_read = 0\<rparr>)
   \<and> remaining \<lparr>m_range = hello_source, m_begin = 100, m_read = 0\<rparr> = Some ''hello''"
proof -
  have a: "ignore_until 100 string_literal (range_input hello_source) CHR ''l''
     = Some (no_error, \<lparr>m_range = hello_source, m_begin = 102, m_read = 2\<rparr>)"
    by (simp add: ignore_until_def ignore_until_impl_def read_until_space_def wrap_def
        cursor_eval hello_source_def is_good_def no_error_def wrap_result_def move_construct_def
        relocate_def)
  have b: "reset_to_rollback_point \<lparr>m_range = hello_source, m_begin = 102, m_read = 2\<rparr>
     = Some (no_error, \<lparr>m_range = hello_source, m_begin = 100, m_read = 0\<rparr>)"
    using reset_ok [of "\<lparr>m_range = hello_source, m_begin = 102, m_read = 2\<rparr>" 2]
    by (simp add: wrapper_end_def hello_source_def)
  have c: "remaining \<lparr>m_range = hello_source, m_begin = 100, m_read = 0\<rparr> = Some ''hello''"
    by (simp add: cursor_eval hello_source_def)
  from a b c show ?thesis by simp
qed

subsection \<open>getline\<close>









lemma m_range_advance [simp]: "m_range (advance n w) = m_range w"
  by (simp add: advance_def Let_def)















subsection \<open>scan_default and scan\<close>

lemma default_format_Suc: "\<exists>cs. default_format (Suc n) = CHR ''{'' # CHR ''}'' # cs
   \<and> (cs = [] \<and> n = 0 \<or> (\<exists>m. n = Suc m \<and> cs = CHR '' '' # default_format (Suc m)))"
  by (cases n) simp_all

lemma dropWhile_blank_default_format:
  "dropWhile (\<lambda>ch. ch = CHR '' '') (default_format n) = default_format n"
proof (cases n)
  case 0
  then show ?thesis by simp
next
  case (Suc m)
  from default_format_Suc [of m] obtain cs where "default_format (Suc m) = CHR ''{'' # CHR ''}'' # cs"
    by blast
  with Suc show ?thesis by simp
qed

lemma next_arg_default_format:
  assumes "dropWhile (\<lambda>ch. ch = CHR '' '') f = default_format (Suc n)"
  shows "\<exists>f'. next_arg (format_ctx f k) = (Inr (k, []), format_ctx f' (k + 1))
            \<and> dropWhile (\<lambda>ch. ch = CHR '' '') f' = default_format n"
proof (cases n)
  case 0
  with assms show ?thesis by simp
next
  case (Suc m)
  have "dropWhile (\<lambda>ch. ch = CHR '' '') (CHR '' '' # default_format (Suc m)) = default_format (Suc m)"
    using dropWhile_blank_default_format [of "Suc m"] by simp
  with assms Suc show ?thesis by simp
qed

lemma vscan_loop_default_format:
  "dropWhile (\<lambda>ch. ch = CHR '' '') f = default_format n \<Longrightarrow>
   vscan_loop n (format_ctx f k) args targets ctx
     = vscan_loop n (empty_ctx (int n) k) args targets ctx"
proof (induction n arbitrary: f k targets ctx)
  case 0
  show ?case by simp
next
  case (Suc n)
  from next_arg_default_format [OF Suc.prems, of k] obtain f' where
    f': "next_arg (format_ctx f k) = (Inr (k, []), format_ctx f' (k + 1))"
    "dropWhile (\<lambda>ch. ch = CHR '' '') f' = default_format n" by blast
  have e: "next_arg (empty_ctx (int (Suc n)) k) = (Inr (k, []), empty_ctx (int n) (k + 1))"
    by simp
  show ?case
    unfolding vscan_loop.simps f' e
    using Suc.IH [OF f'(2)]
    by (simp split: prod.splits)
qed

lemma scan_default_example:
  "scan_default 0 string_literal (range_input list_source) [digit_arg, digit_arg] [7, 7]
     = Some ((mk_error invalid_scanned_value ''not a digit'',
              \<lparr>m_range = list_source, m_begin = 1, m_read = 1\<rparr>), [1, 7])"
  by (simp add: scan_default_def scan_boilerplate_def vscan_def basic_empty_parse_context_def
      digit_arg_def scan_digit_def digit_value_def wrap_def cursor_eval list_source_def
      is_good_def no_error_def mk_error_def wrap_result_def move_construct_def relocate_def)

text \<open>Claim C8. For every input and every list of arguments, \<open>scan_default\<close> gives the
  same result as \<open>scan\<close> with the format string of one \<^verbatim>\<open>{}\<close> per argument separated by
  blanks: the same error, the same leftover cursor and the same values of the arguments
  (both calls are undefined together as well).\<close>

theorem scan_default_eq_scan:
  "scan_default nb tag r args targets
     = scan nb tag r (default_format (length args)) args targets"
proof -
  have "vscan (wrap nb r) (basic_parse_context (default_format (length args))) args targets
      = vscan (wrap nb r) (basic_empty_parse_context (int (length args))) args targets"
    unfolding vscan_def basic_parse_context_def basic_empty_parse_context_def
    by (rule vscan_loop_default_format) (rule dropWhile_blank_default_format)
  then show ?thesis
    by (simp add: scan_default_def scan_def scan_boilerplate_def)
qed

theorem scan_default_eq_scan_witness:
  "scan 0 string_literal (range_input list_source) ''{} {}'' [digit_arg, digit_arg] [7, 7]
     = Some ((mk_error invalid_scanned_value ''not a digit'',
              \<lparr>m_range = list_source, m_begin = 1, m_read = 1\<rparr>), [1, 7])"
  using scan_default_eq_scan [of 0 string_literal "range_input list_source"
      "[digit_arg, digit_arg]" "[7, 7]"] scan_default_example
  by (simp add: numeral_2_eq_2)

end
